theory Spec2Isabelle
  imports Complex_Main "HOL-Library.Char_ord" "HOL-Library.Log_Nat"
begin

section \<open>The JavaScript \<open>Date\<close> built-in, as far as the attendance code uses it\<close>

text \<open>
  The attendance utilities (\<open>server/utils/attendance.ts\<close>) and the custom working-day
  utilities are pure functions over date strings; everything calendrical goes through the
  built-in \<open>Date\<close>. The model of that built-in follows ECMAScript:

  \<^item> a \<open>Date\<close> object holds a time value, an integral number of milliseconds since
    1970-01-01T00:00Z, or \<open>NaN\<close> (an "Invalid Date"): \<open>jsdate = int option\<close>, with
    \<open>None\<close> for \<open>NaN\<close>. A time value is at most \<open>8.64e15\<close> in absolute value, that is
    100,000,000 days either side of the epoch; \<open>TimeClip\<close> turns anything beyond into
    \<open>NaN\<close>;
  \<^item> a date string is kept abstract. \<open>Canon d\<close> is the string \<open>YYYY-MM-DD\<close> that
    \<open>toISOString().split("T")[0]\<close> yields for the UTC day number \<open>d\<close> (days since
    1970-01-01, within those 100,000,000 either side); \<open>new Date\<close> parses it as UTC
    midnight of that day. \<open>Other s r\<close> is any other string, with text \<open>s\<close> and the time
    value \<open>r\<close> that \<open>Date.parse\<close> gives it (\<open>None\<close> when the string is unparsable).
    Two date strings are \<open>===\<close> exactly when they are equal in this type;
  \<^item> \<open>getDay\<close>, \<open>getDate\<close> and \<open>setDate\<close> work in local time. The runtime's time
    zone is a parameter \<open>z\<close> that gives the two offsets of ECMAScript's \<open>LocalTZA\<close>:
    \<open>LocalTime(t) = t + utcOffset z t\<close> for a time value \<open>t\<close>, and
    \<open>UTC(l) = l - localOffset z l\<close> for a local time \<open>l\<close>. Both may vary with the
    time, as they do where clocks change for daylight saving.
\<close>

type_synonym jsdate = "int option"

datatype datestr = Canon int | Other string "int option"

datatype error = RangeError

definition msPerDay :: int where
  "msPerDay = 86400000"

definition maxDay :: int where
  "maxDay = 100000000"

definition maxTime :: int where
  "maxTime = maxDay * msPerDay"

definition timeClip :: "int \<Rightarrow> jsdate" where
  "timeClip t = (if \<bar>t\<bar> \<le> maxTime then Some t else None)"

record zone =
  utcOffset :: "int \<Rightarrow> int"
  localOffset :: "int \<Rightarrow> int"

text \<open>A zone that keeps one offset \<open>tz\<close> (milliseconds east of UTC) at all times.\<close>

definition fixedZone :: "int \<Rightarrow> zone" where
  "fixedZone tz = \<lparr>utcOffset = (\<lambda>t. tz), localOffset = (\<lambda>l. tz)\<rparr>"

text \<open>
  A zone whose clocks go forward once, at the time value \<open>T\<close>, from the offset \<open>a\<close> to the
  offset \<open>b > a\<close>. A local time in the gap that the change skips is read with the offset
  in force before the change.
\<close>

definition springForward :: "int \<Rightarrow> int \<Rightarrow> int \<Rightarrow> zone" where
  "springForward T a b =
     \<lparr>utcOffset = (\<lambda>t. if t < T then a else b),
      localOffset = (\<lambda>l. if l < T + b then a else b)\<rparr>"

text \<open>\<open>new Date(dateStr)\<close>\<close>

fun newDate :: "datestr \<Rightarrow> jsdate" where
  "newDate (Canon d) = Some (d * msPerDay)"
| "newDate (Other s r) = r"

text \<open>\<open>date.getTime()\<close>: the time value, \<open>NaN\<close> for an invalid date.\<close>

definition getTime :: "jsdate \<Rightarrow> int option" where
  "getTime d = d"

text \<open>
  \<open>date.getDay()\<close>: ECMAScript's \<open>WeekDay(LocalTime(t)) = (Day(LocalTime(t)) + 4) modulo 7\<close>,
  0 for Sunday to 6 for Saturday; \<open>NaN\<close> for an invalid date.
\<close>

definition getDay :: "zone \<Rightarrow> jsdate \<Rightarrow> int option" where
  "getDay z d = (case d of None \<Rightarrow> None
                 | Some t \<Rightarrow> Some (((t + utcOffset z t) div msPerDay + 4) mod 7))"

text \<open>
  \<open>d.setDate(e.getDate() + k)\<close> where \<open>e\<close> has the time value of \<open>d\<close>. \<open>getDate\<close> is
  the day of the month of the local day, and \<open>setDate(n)\<close> moves to day \<open>n\<close> of the same
  local month, counting on past its ends (\<open>MakeDay\<close>), with the local time of day kept:
  the local time moves by \<open>k\<close> whole days. That local time is taken back to UTC with
  the offset in force there, and clipped. An invalid date, or \<open>k = NaN\<close>, gives an
  invalid date.
\<close>

definition setDateRel :: "zone \<Rightarrow> jsdate \<Rightarrow> int option \<Rightarrow> jsdate" where
  "setDateRel z d k =
     (case (d, k) of
        (Some t, Some n) \<Rightarrow>
          (let localTime = t + utcOffset z t;
               moved = localTime + n * msPerDay
           in timeClip (moved - localOffset z moved))
      | _ \<Rightarrow> None)"

text \<open>
  \<open>d.toISOString().split("T")[0]\<close>: the date string of the UTC day of the time
  value; \<open>toISOString\<close> throws a \<open>RangeError\<close> on an invalid date.
\<close>

definition toISODate :: "jsdate \<Rightarrow> error + datestr" where
  "toISODate d = (case d of None \<Rightarrow> Inl RangeError
                  | Some t \<Rightarrow> Inr (Canon (t div msPerDay)))"

text \<open>\<open>a <= b\<close> on two \<open>Date\<close> objects: on their time values, false when either is \<open>NaN\<close>.\<close>

definition dateLe :: "jsdate \<Rightarrow> jsdate \<Rightarrow> bool" where
  "dateLe a b = (case (a, b) of (Some x, Some y) \<Rightarrow> x \<le> y | _ \<Rightarrow> False)"

text \<open>
  Day numbers of concrete calendar dates (\<open>MakeDay\<close> for a year, a month 1 to 12 and a
  day of the month), to write the dates of examples: \<open>ymd 2024 3 4\<close> is 2024-03-04.
\<close>

definition ymd :: "int \<Rightarrow> int \<Rightarrow> int \<Rightarrow> int" where
  "ymd y m d =
     (let y' = (if m \<le> 2 then y - 1 else y);
          era = y' div 400;
          yoe = y' - era * 400;
          doy = (153 * (if m > 2 then m - 3 else m + 9) + 2) div 5 + d - 1;
          doe = yoe * 365 + yoe div 4 - yoe div 100 + doy
      in era * 146097 + doe - 719468)"

section \<open>Attendance utilities\<close>

datatype attendance_status = Present | Absent

record attendance =
  date :: datestr
  status :: attendance_status

record validity =
  isValid :: bool

record working_day_result = validity +
  reason :: "string option"

record validation_result = validity +
  errors :: "string list"

record attendance_count =
  present :: nat
  absent :: nat
  total :: nat

text \<open>\<open>isWeekend\<close>: the local weekday of the parsed string is Sunday (0) or Saturday (6).\<close>

definition isWeekend :: "zone \<Rightarrow> datestr \<Rightarrow> bool" where
  "isWeekend z dateStr =
     (let d = newDate dateStr; dayOfWeek = getDay z d
      in dayOfWeek = Some 0 \<or> dayOfWeek = Some 6)"

definition isValidWorkingDay :: "zone \<Rightarrow> datestr \<Rightarrow> datestr list \<Rightarrow> working_day_result" where
  "isValidWorkingDay z dateStr holidays =
     (if isWeekend z dateStr
      then \<lparr>isValid = False, reason = Some ''Cannot mark attendance on weekends''\<rparr>
      else if List.member holidays dateStr
      then \<lparr>isValid = False, reason = Some ''Cannot mark attendance on holidays''\<rparr>
      else \<lparr>isValid = True, reason = None\<rparr>)"

definition isWithinInternshipPeriod :: "datestr \<Rightarrow> datestr \<Rightarrow> datestr \<Rightarrow> bool" where
  "isWithinInternshipPeriod dateStr startDate endDate =
     (case (getTime (newDate dateStr), getTime (newDate startDate), getTime (newDate endDate)) of
        (Some checkDate, Some start, Some end') \<Rightarrow> checkDate \<ge> start \<and> checkDate \<le> end'
      | _ \<Rightarrow> False)"

text \<open>
  The loop of \<open>getWorkingDaysInRange\<close>: \<open>current\<close> runs from the start in steps of one
  local day while \<open>current <= end\<close>; a comparison with an invalid date is false. Nothing
  in the loop bounds the number of its steps: how far a step moves \<open>current\<close> rests with
  the zone. The result is \<open>None\<close> when the loop does not end.
\<close>

partial_function (option) rangeLoop ::
  "zone \<Rightarrow> datestr list \<Rightarrow> jsdate \<Rightarrow> jsdate \<Rightarrow> datestr list \<Rightarrow> (error + datestr list) option"
where
  "rangeLoop z holidays current end' workingDays =
     (if dateLe current end'
      then (case toISODate current of
              Inl e \<Rightarrow> Some (Inl e)
            | Inr dateStr \<Rightarrow>
                rangeLoop z holidays (setDateRel z current (Some 1)) end'
                  (if \<not> isWeekend z dateStr \<and> \<not> List.member holidays dateStr
                   then workingDays @ [dateStr] else workingDays))
      else Some (Inr workingDays))"

declare rangeLoop.simps [code]

definition getWorkingDaysInRange ::
  "zone \<Rightarrow> datestr \<Rightarrow> datestr \<Rightarrow> datestr list \<Rightarrow> (error + datestr list) option" where
  "getWorkingDaysInRange z startDate endDate holidays =
     rangeLoop z holidays (newDate startDate) (newDate endDate) []"

text \<open>
  \<open>getWorkingDaysInWeek\<close>: \<open>monday\<close> is a copy of \<open>date\<close> moved by
  \<open>- dayOfWeek + 1\<close> days, \<open>friday\<close> a copy of \<open>monday\<close> moved by 4 days; both are
  formatted (which throws on an invalid date) before the range is enumerated.
\<close>

definition getWorkingDaysInWeek ::
  "zone \<Rightarrow> datestr \<Rightarrow> datestr list \<Rightarrow> (error + datestr list) option" where
  "getWorkingDaysInWeek z dateStr holidays =
     (let d = newDate dateStr;
          dayOfWeek = getDay z d;
          monday = setDateRel z d (map_option (\<lambda>w. - w + 1) dayOfWeek);
          friday = setDateRel z monday (Some 4)
      in case toISODate monday of
           Inl e \<Rightarrow> Some (Inl e)
         | Inr mondayStr \<Rightarrow>
             (case toISODate friday of
                Inl e \<Rightarrow> Some (Inl e)
              | Inr fridayStr \<Rightarrow> getWorkingDaysInRange z mondayStr fridayStr holidays))"

text \<open>
  \<open>countAttendance\<close>: one pass over the records with the two counters; a record counts
  when its time value lies between those of the two bounds (no comparison with \<open>NaN\<close>
  holds), as present when its status is \<open>"present"\<close> and as absent otherwise.
\<close>

definition timeInRange :: "int option \<Rightarrow> int option \<Rightarrow> int option \<Rightarrow> bool" where
  "timeInRange recordTime startTime endTime =
     (case (recordTime, startTime, endTime) of
        (Some r, Some s, Some e) \<Rightarrow> r \<ge> s \<and> r \<le> e
      | _ \<Rightarrow> False)"

fun countLoop :: "int option \<Rightarrow> int option \<Rightarrow> attendance list \<Rightarrow> nat \<times> nat \<Rightarrow> nat \<times> nat" where
  "countLoop startTime endTime [] (p, a) = (p, a)"
| "countLoop startTime endTime (record # records) (p, a) =
     (let recordTime = getTime (newDate (date record))
      in if timeInRange recordTime startTime endTime
         then (if status record = Present
               then countLoop startTime endTime records (p + 1, a)
               else countLoop startTime endTime records (p, a + 1))
         else countLoop startTime endTime records (p, a))"

definition countAttendance :: "attendance list \<Rightarrow> datestr \<Rightarrow> datestr \<Rightarrow> attendance_count" where
  "countAttendance attendanceRecords startDate endDate =
     (let startTime = getTime (newDate startDate);
          endTime = getTime (newDate endDate);
          (p, a) = countLoop startTime endTime attendanceRecords (0, 0)
      in \<lparr>present = p, absent = a, total = p + a\<rparr>)"

text \<open>
  The decimal rendering of an integer, as the template literal of the weekly-limit
  message renders \<open>daysPerWeekAllowed\<close>.
\<close>

fun digitsOf :: "nat \<Rightarrow> string" where
  "digitsOf n = (if n < 10 then [char_of (48 + n)]
                 else digitsOf (n div 10) @ [char_of (48 + n mod 10)])"

definition numberToString :: "int \<Rightarrow> string" where
  "numberToString n = (if n < 0 then CHR ''-'' # digitsOf (nat (- n)) else digitsOf (nat n))"

definition weeklyLimitMessage :: "int \<Rightarrow> string" where
  "weeklyLimitMessage daysPerWeekAllowed =
     ''Weekly attendance limit exceeded ('' @ numberToString daysPerWeekAllowed
       @ '' days per week allowed)''"

text \<open>\<open>reason || "Not a working day"\<close>: the default stands in for a missing or empty reason.\<close>

definition reasonOr :: "string option \<Rightarrow> string \<Rightarrow> string" where
  "reasonOr r dflt = (case r of None \<Rightarrow> dflt | Some s \<Rightarrow> if s = [] then dflt else s)"

text \<open>
  \<open>validateAttendanceMarkable\<close>: the four checks push onto \<open>errors\<close> in turn. The
  \<open>studentId\<close> is a parameter the body never reads. An exception of
  \<open>getWorkingDaysInWeek\<close> leaves the function, and so does its not returning.
\<close>

definition validateAttendanceMarkable ::
  "zone \<Rightarrow> string \<Rightarrow> datestr \<Rightarrow> int \<Rightarrow> datestr \<Rightarrow> datestr \<Rightarrow> datestr list \<Rightarrow> attendance list
     \<Rightarrow> (error + validation_result) option" where
  "validateAttendanceMarkable z studentId dateStr daysPerWeekAllowed internshipStartDate
       internshipEndDate holidays existingAttendance =
     (let errors0 = [];
          errors1 = (if \<not> isWithinInternshipPeriod dateStr internshipStartDate internshipEndDate
                     then errors0 @ [''Date is outside internship period''] else errors0);
          wd = isValidWorkingDay z dateStr holidays;
          errors2 = (if \<not> isValid wd
                     then errors1 @ [reasonOr (reason wd) ''Not a working day''] else errors1);
          errors3 = (if list_ex (\<lambda>a. date a = dateStr) existingAttendance
                     then errors2 @ [''Attendance already marked for this date''] else errors2)
      in case getWorkingDaysInWeek z dateStr holidays of
           None \<Rightarrow> None
         | Some (Inl e) \<Rightarrow> Some (Inl e)
         | Some (Inr weekWorkingDays) \<Rightarrow>
             (let weekAttendance =
                    filter (\<lambda>a. List.member weekWorkingDays (date a)) existingAttendance;
                  errors4 = (if int (length weekAttendance) \<ge> daysPerWeekAllowed
                             then errors3 @ [weeklyLimitMessage daysPerWeekAllowed] else errors3)
              in Some (Inr \<lparr>isValid = (length errors4 = 0), errors = errors4\<rparr>)))"

section \<open>Calendar notions of the specification\<close>

text \<open>
  The weekday of a calendar day, from its day number: 0 for Sunday to 6 for Saturday
  (1970-01-01, day 0, was a Thursday).
\<close>

definition calendarWeekday :: "int \<Rightarrow> int" where
  "calendarWeekday d = (d + 4) mod 7"

text \<open>
  The specification's \<open>isWeekend\<close>, \<open>isWorkingDay\<close> and \<open>workingDaysInWeek\<close>, on day
  numbers: the week of a date is the calendar week that begins on a Monday, so the week of
  a Sunday began six days before it, and its working days are those of its Monday to
  Friday.
\<close>

definition weekendDay :: "int \<Rightarrow> bool" where
  "weekendDay d = (calendarWeekday d = 0 \<or> calendarWeekday d = 6)"

definition workingDay :: "int \<Rightarrow> datestr list \<Rightarrow> bool" where
  "workingDay d holidaySet = (\<not> weekendDay d \<and> Canon d \<notin> set holidaySet)"

definition mondayOfWeek :: "int \<Rightarrow> int" where
  "mondayOfWeek d = d - (calendarWeekday d + 6) mod 7"

definition workingDaysInWeek :: "int \<Rightarrow> datestr list \<Rightarrow> int list" where
  "workingDaysInWeek d holidaySet =
     filter (\<lambda>x. workingDay x holidaySet) [mondayOfWeek d..mondayOfWeek d + 4]"

text \<open>
  The count of the weekly-quota check as the specification has it: the existing records,
  of either status, whose date is a working day of the week of the mark.
\<close>

definition weekCount :: "int \<Rightarrow> datestr list \<Rightarrow> attendance list \<Rightarrow> int" where
  "weekCount d holidaySet existing =
     int (length (filter (\<lambda>a. date a \<in> Canon ` set (workingDaysInWeek d holidaySet)) existing))"

text \<open>
  The week that \<open>getWorkingDaysInWeek\<close> enumerates for a calendar date \<open>d\<close> of weekday
  \<open>w\<close>, where the local weekday of a date string is its calendar weekday: the working
  days among \<open>d + 1 - w\<close> to \<open>d + 5 - w\<close>. And the count of the existing records over
  that week.
\<close>

definition enumeratedWeek :: "int \<Rightarrow> datestr list \<Rightarrow> int list" where
  "enumeratedWeek d holidaySet =
     filter (\<lambda>x. workingDay x holidaySet)
       [d + 1 - calendarWeekday d..d + 5 - calendarWeekday d]"

definition enumeratedCount :: "int \<Rightarrow> datestr list \<Rightarrow> attendance list \<Rightarrow> int" where
  "enumeratedCount d holidaySet existing =
     int (length (filter (\<lambda>a. date a \<in> Canon ` set (enumeratedWeek d holidaySet)) existing))"

text \<open>
  The day number of the \<open>monday\<close> that \<open>getWorkingDaysInWeek\<close> computes, in a zone of
  fixed offset \<open>tz\<close>, for a date with time value \<open>t\<close>: it lies \<open>1 - dayOfWeek\<close> days
  from the UTC day of the date, \<open>dayOfWeek\<close> being its local weekday.
\<close>

definition weekStart :: "int \<Rightarrow> int \<Rightarrow> int" where
  "weekStart tz t = t div msPerDay + 1 - ((t + tz) div msPerDay + 4) mod 7"

text \<open>
  A record's date falls within the calendar days \<open>s\<close> to \<open>e\<close>, both included. A
  date string with a time of day is placed by its time value between the two midnights; an
  unparsable one falls nowhere.
\<close>

fun fallsWithin :: "int \<Rightarrow> int \<Rightarrow> datestr \<Rightarrow> bool" where
  "fallsWithin s e (Canon d) = (s \<le> d \<and> d \<le> e)"
| "fallsWithin s e (Other str None) = False"
| "fallsWithin s e (Other str (Some t)) = (s * msPerDay \<le> t \<and> t \<le> e * msPerDay)"

section \<open>Custom working days\<close>

text \<open>
  The custom working-days utilities compare date strings with \<open><\<close> and \<open>></\<close>, which on
  strings is the lexicographic order of their characters. That needs the text of a date
  string: for \<open>Canon d\<close> the text that \<open>toISOString\<close> gives the day, a year of four
  digits (or a sign and six digits outside 0 to 9999), the month and the day of the month.
\<close>

definition civilFromDays :: "int \<Rightarrow> int \<times> int \<times> int" where
  "civilFromDays z =
     (let z' = z + 719468;
          era = z' div 146097;
          doe = z' - era * 146097;
          yoe = (doe - doe div 1460 + doe div 36524 - doe div 146096) div 365;
          y = yoe + era * 400;
          doy = doe - (365 * yoe + yoe div 4 - yoe div 100);
          mp = (5 * doy + 2) div 153;
          d = doy - (153 * mp + 2) div 5 + 1;
          m = (if mp < 10 then mp + 3 else mp - 9)
      in (if m \<le> 2 then y + 1 else y, m, d))"

definition padStart :: "nat \<Rightarrow> string \<Rightarrow> string" where
  "padStart k s = replicate (k - length s) CHR ''0'' @ s"

definition isoText :: "int \<Rightarrow> string" where
  "isoText d =
     (case civilFromDays d of (y, m, dd) \<Rightarrow>
        (if 0 \<le> y \<and> y \<le> 9999 then padStart 4 (digitsOf (nat y))
         else (if y < 0 then ''-'' else ''+'') @ padStart 6 (digitsOf (nat \<bar>y\<bar>)))
        @ ''-'' @ padStart 2 (digitsOf (nat m)) @ ''-'' @ padStart 2 (digitsOf (nat dd)))"

fun textOf :: "datestr \<Rightarrow> string" where
  "textOf (Canon d) = isoText d"
| "textOf (Other s r) = s"

text \<open>\<open>a < b\<close> on two date strings.\<close>

definition strLess :: "datestr \<Rightarrow> datestr \<Rightarrow> bool" where
  "strLess a b = lexordp (<) (textOf a) (textOf b)"

record WorkingDaysConfig =
  daysPerWeek :: int
  customDays :: "string list option"
  internshipStartDate :: datestr
  internshipEndDate :: datestr

text \<open>The \<open>date: string | Date\<close> parameter.\<close>

datatype date_arg = DateString datestr | DateObject jsdate

definition dayNames :: "string list" where
  "dayNames = [''Sunday'', ''Monday'', ''Tuesday'', ''Wednesday'', ''Thursday'', ''Friday'',
               ''Saturday'']"

text \<open>\<open>dayNames[dayOfWeek]\<close>: \<open>undefined\<close> (\<open>None\<close>) when the index is \<open>NaN\<close>.\<close>

definition dayNameAt :: "int option \<Rightarrow> string option" where
  "dayNameAt dayOfWeek =
     (case dayOfWeek of
        None \<Rightarrow> None
      | Some w \<Rightarrow> if 0 \<le> w \<and> w < 7 then Some (dayNames ! nat w) else None)"

text \<open>\<open>xs.join(', ')\<close>\<close>

fun joinComma :: "string list \<Rightarrow> string" where
  "joinComma [] = []"
| "joinComma [x] = x"
| "joinComma (x # y # ys) = x @ '', '' @ joinComma (y # ys)"

text \<open>
  \<open>isValidWorkingDay\<close> of the custom working-days utilities (the variant that takes a
  \<open>WorkingDaysConfig\<close>): internship period and holidays first, on the formatted date, then
  the weekday, against \<open>customDays\<close> when the configuration has a non-empty list and
  against Saturday and Sunday otherwise.
\<close>

definition isValidWorkingDayConfig ::
  "zone \<Rightarrow> date_arg \<Rightarrow> WorkingDaysConfig \<Rightarrow> datestr list \<Rightarrow> error + working_day_result" where
  "isValidWorkingDayConfig z dateArg config holidays =
     (let checkDate = (case dateArg of DateString s \<Rightarrow> newDate s | DateObject d \<Rightarrow> d)
      in case toISODate checkDate of
           Inl e \<Rightarrow> Inl e
         | Inr dateStr \<Rightarrow>
             if strLess dateStr (internshipStartDate config)
             then Inr \<lparr>isValid = False, reason = Some ''Date is before internship start date''\<rparr>
             else if strLess (internshipEndDate config) dateStr
             then Inr \<lparr>isValid = False, reason = Some ''Date is after internship end date''\<rparr>
             else if List.member holidays dateStr
             then Inr \<lparr>isValid = False, reason = Some ''Date is a holiday''\<rparr>
             else
               (let dayOfWeek = getDay z checkDate;
                    dayName = dayNameAt dayOfWeek
                in case customDays config of
                     Some (c # cs) \<Rightarrow>
                       if \<not> (case dayName of None \<Rightarrow> False
                               | Some nm \<Rightarrow> List.member (c # cs) nm)
                       then Inr \<lparr>isValid = False,
                                 reason = Some ((case dayName of None \<Rightarrow> ''undefined''
                                                 | Some nm \<Rightarrow> nm)
                                   @ '' is not a working day. Working days: ''
                                   @ joinComma (c # cs))\<rparr>
                       else Inr \<lparr>isValid = True, reason = None\<rparr>
                   | _ \<Rightarrow>
                       if dayOfWeek = Some 0 \<or> dayOfWeek = Some 6
                       then Inr \<lparr>isValid = False,
                                 reason = Some ''Weekends are not working days''\<rparr>
                       else Inr \<lparr>isValid = True, reason = None\<rparr>))"

text \<open>The name of the weekday of a calendar day.\<close>

definition weekdayName :: "int \<Rightarrow> string" where
  "weekdayName d = dayNames ! nat (calendarWeekday d)"

section \<open>Numbers and the attendance percentage\<close>

text \<open>
  \<open>calculateAttendancePercentage\<close> computes in JavaScript numbers, IEEE 754 double
  precision. A finite double is modelled by the rational it denotes; \<open>roundToDouble\<close>
  maps a rational to the nearest double, a tie going to the even significand, for values
  in the normal range (here every value is 0 or lies between \<open>2^-53\<close> and \<open>2^60\<close>):
  with \<open>2^e \<le> |x| < 2^(e+1)\<close>, the doubles around \<open>x\<close> are the multiples of
  \<open>2^(e-52)\<close>. Division and multiplication of numbers are the exact operations followed
  by that rounding. \<open>presentDays\<close> and \<open>totalWorkingDays\<close> hold non-negative integers
  (counts, below \<open>2^53\<close>), which are doubles as they stand.
\<close>

text \<open>The integer nearest to \<open>q\<close>, the even one of two equally near.\<close>

definition roundHalfEven :: "rat \<Rightarrow> int" where
  "roundHalfEven q =
     (let f = \<lfloor>q\<rfloor>; r = q - of_int f
      in if r < 1 / 2 then f else if 1 / 2 < r then f + 1 else if even f then f else f + 1)"

text \<open>For \<open>x > 0\<close>, the \<open>e\<close> with \<open>2^e \<le> x < 2^(e+1)\<close>.\<close>

definition floorLog2 :: "rat \<Rightarrow> int" where
  "floorLog2 x =
     (case quotient_of x of (a, b) \<Rightarrow>
        (let k = bitlen a - bitlen b in if power_int 2 k \<le> x then k else k - 1))"

definition roundToDouble :: "rat \<Rightarrow> rat" where
  "roundToDouble x =
     (if x = 0 then 0
      else (let e = floorLog2 \<bar>x\<bar>; u = power_int 2 (e - 52)
            in sgn x * of_int (roundHalfEven (\<bar>x\<bar> / u)) * u))"

definition numDiv :: "rat \<Rightarrow> rat \<Rightarrow> rat" where
  "numDiv x y = roundToDouble (x / y)"

definition numMul :: "rat \<Rightarrow> rat \<Rightarrow> rat" where
  "numMul x y = roundToDouble (x * y)"

text \<open>\<open>Math.round\<close>: the nearest integer, a tie going up.\<close>

definition mathRound :: "rat \<Rightarrow> int" where
  "mathRound x = \<lfloor>x + 1 / 2\<rfloor>"

definition calculateAttendancePercentage :: "nat \<Rightarrow> nat \<Rightarrow> int" where
  "calculateAttendancePercentage presentDays totalWorkingDays =
     (if totalWorkingDays = 0 then 0
      else mathRound (numMul (numDiv (of_nat presentDays) (of_nat totalWorkingDays)) 100))"

text \<open>
  The percentage of the specification: \<open>100 * presentDays / totalWorkingDays\<close> as an
  exact quotient, rounded to the nearest integer with a tie going up; and the case where
  that quotient lies exactly half-way between two integers.
\<close>

definition exactPercentage :: "nat \<Rightarrow> nat \<Rightarrow> int" where
  "exactPercentage p t = \<lfloor>100 * (of_nat p :: rat) / of_nat t + 1 / 2\<rfloor>"

definition halfway :: "nat \<Rightarrow> nat \<Rightarrow> bool" where
  "halfway p t = (frac (100 * (of_nat p :: rat) / of_nat t) = 1 / 2)"

section \<open>Facts about the date model\<close>

lemma msPerDay_pos: "0 < msPerDay"
  by (simp add: msPerDay_def)

lemma timeClip_day:
  assumes "- maxDay \<le> d" "d \<le> maxDay"
  shows "timeClip (d * msPerDay) = Some (d * msPerDay)"
proof -
  have "d * msPerDay \<le> maxDay * msPerDay" "- (maxDay * msPerDay) \<le> d * msPerDay"
    using assms msPerDay_pos by (simp_all add: mult_right_mono flip: mult_minus_left)
  then show ?thesis by (simp add: timeClip_def maxTime_def abs_le_iff)
qed

lemma timeClip_beyond:
  assumes "maxDay < d"
  shows "timeClip (d * msPerDay) = None"
proof -
  have "maxDay * msPerDay < d * msPerDay"
    using assms msPerDay_pos by (simp add: mult_strict_right_mono)
  then show ?thesis by (simp add: timeClip_def maxTime_def)
qed

lemma getDay_fixed:
  "getDay (fixedZone tz) (Some t) = Some (((t + tz) div msPerDay + 4) mod 7)"
  by (simp add: getDay_def fixedZone_def)

lemma setDateRel_fixed:
  "setDateRel (fixedZone tz) (Some t) (Some n) = timeClip (t + n * msPerDay)"
  by (simp add: setDateRel_def fixedZone_def Let_def)

lemma local_day_Canon:
  assumes "0 \<le> tz" "tz < msPerDay"
  shows "(d * msPerDay + tz) div msPerDay = d"
  using assms msPerDay_pos by (simp add: div_pos_pos_trivial)

lemma getDay_Canon:
  assumes "0 \<le> tz" "tz < msPerDay"
  shows "getDay (fixedZone tz) (Some (d * msPerDay)) = Some (calendarWeekday d)"
  by (simp add: getDay_fixed calendarWeekday_def local_day_Canon[OF assms])

lemma isWeekend_Canon:
  assumes "0 \<le> tz" "tz < msPerDay"
  shows "isWeekend (fixedZone tz) (Canon d) \<longleftrightarrow> weekendDay d"
  using getDay_Canon[OF assms, of d] by (simp add: isWeekend_def weekendDay_def Let_def)

lemma ymd_examples:
  "ymd 2024 3 1 = 19783" "ymd 2024 3 4 = 19786" "ymd 2024 3 5 = 19787"
  "ymd 2024 3 7 = 19789" "ymd 2024 8 31 = 19966" "ymd 2024 3 10 = 19792"
  "ymd 2024 3 11 = 19793" "ymd 2024 3 15 = 19797" "ymd 2024 3 8 = 19790"
  "ymd 2024 3 9 = 19791" "ymd 2024 3 6 = 19788" "ymd 2024 3 12 = 19794"
  "ymd 2024 3 13 = 19795" "ymd 2024 3 14 = 19796"
  "ymd 2024 4 24 = 19837" "ymd 2024 4 25 = 19838" "ymd 2024 4 26 = 19839"
  "ymd 2024 4 29 = 19842"
  by (simp_all add: ymd_def)

section \<open>The range loop\<close>

text \<open>
  In a zone of fixed offset a step of the loop is one day of milliseconds. Between two
  midnights within the range of \<open>Date\<close> the loop visits the days \<open>s, s + 1, \<dots>, e\<close> in
  turn and keeps those that pass the two tests; it ends, and it does not throw.
\<close>

lemma rangeLoop_days:
  assumes "- maxDay - 1 \<le> s" "e \<le> maxDay"
  shows "rangeLoop (fixedZone tz) holidays (Some (s * msPerDay)) (Some (e * msPerDay)) acc =
     Some (Inr (acc @ filter (\<lambda>ds. \<not> isWeekend (fixedZone tz) ds \<and> ds \<notin> set holidays)
                       (map Canon [s..e])))"
  using assms
proof (induction "nat (e - s + 1)" arbitrary: s acc)
  case 0
  then have "e < s" by simp
  then have "\<not> dateLe (Some (s * msPerDay)) (Some (e * msPerDay))"
    using msPerDay_pos by (simp add: dateLe_def)
  with \<open>e < s\<close> show ?case
    by (simp add: rangeLoop.simps[of _ _ "Some (s * msPerDay)"])
next
  case (Suc n)
  then have le: "s \<le> e" by simp
  then have dl: "dateLe (Some (s * msPerDay)) (Some (e * msPerDay))"
    using msPerDay_pos by (simp add: dateLe_def)
  have iso: "toISODate (Some (s * msPerDay)) = Inr (Canon s)"
    using msPerDay_pos by (simp add: toISODate_def)
  have up: "[s..e] = s # [s + 1..e]" using le by (simp add: upto_rec1)
  let ?acc = "if \<not> isWeekend (fixedZone tz) (Canon s) \<and> \<not> List.member holidays (Canon s)
              then acc @ [Canon s] else acc"
  have unfold: "rangeLoop (fixedZone tz) holidays (Some (s * msPerDay)) (Some (e * msPerDay)) acc
      = rangeLoop (fixedZone tz) holidays (timeClip ((s + 1) * msPerDay))
          (Some (e * msPerDay)) ?acc"
    by (subst rangeLoop.simps)
       (simp only: dl if_True iso sum.case setDateRel_fixed, simp add: algebra_simps)
  show ?case
  proof (cases "s + 1 \<le> maxDay")
    case True
    have clip: "timeClip ((s + 1) * msPerDay) = Some ((s + 1) * msPerDay)"
      using True Suc.prems(1) by (intro timeClip_day) simp_all
    have n: "n = nat (e - (s + 1) + 1)" using Suc.hyps(2) by simp
    have lo: "- maxDay - 1 \<le> s + 1" using Suc.prems(1) by simp
    show ?thesis
      unfolding unfold clip
      by (subst Suc.hyps(1)[OF n lo Suc.prems(2)]) (simp add: up)
  next
    case False
    with le Suc.prems(2) have se: "s = e" "e = maxDay" by simp_all
    have clip: "timeClip ((s + 1) * msPerDay) = None"
      using False by (intro timeClip_beyond) simp
    have stop: "rangeLoop (fixedZone tz) holidays None (Some (e * msPerDay)) ?acc
                  = Some (Inr ?acc)"
      by (subst rangeLoop.simps) (simp add: dateLe_def)
    show ?thesis
      unfolding unfold clip stop using se by simp
  qed
qed

lemma getWorkingDaysInRange_Canon:
  assumes "- maxDay - 1 \<le> s" "e \<le> maxDay"
  shows "getWorkingDaysInRange (fixedZone tz) (Canon s) (Canon e) holidays =
     Some (Inr (filter (\<lambda>ds. \<not> isWeekend (fixedZone tz) ds \<and> ds \<notin> set holidays)
                  (map Canon [s..e])))"
  by (simp add: getWorkingDaysInRange_def rangeLoop_days[OF assms])

lemma filter_map_Canon:
  "filter P (map Canon xs) = map Canon (filter (\<lambda>d. P (Canon d)) xs)"
  by (induction xs) simp_all

text \<open>
  The week of a parsable date string, in a zone of fixed offset, when the date lies at
  least five days inside the range of \<open>Date\<close>: the five days from \<open>monday\<close>.
\<close>

lemma timeClip_margin:
  assumes "\<bar>t\<bar> \<le> maxTime - 5 * msPerDay" "- 5 * msPerDay \<le> x" "x \<le> 5 * msPerDay"
  shows "timeClip (t + x) = Some (t + x)"
proof -
  have "\<bar>t + x\<bar> \<le> maxTime" using assms by linarith
  then show ?thesis by (simp add: timeClip_def)
qed

lemma day_of_time_bounds:
  assumes "\<bar>u\<bar> \<le> maxTime"
  shows "- maxDay \<le> u div msPerDay" and "u div msPerDay \<le> maxDay"
proof -
  define m where "m = - maxDay"
  have M: "0 < msPerDay" by (rule msPerDay_pos)
  have "m * msPerDay \<le> u" "u \<le> maxDay * msPerDay"
    using assms by (simp_all add: maxTime_def abs_le_iff m_def)
  then have "(m * msPerDay) div msPerDay \<le> u div msPerDay"
    "u div msPerDay \<le> (maxDay * msPerDay) div msPerDay"
    using M by (simp_all only: zdiv_mono1)
  then have "m \<le> u div msPerDay" "u div msPerDay \<le> maxDay"
    using M by simp_all
  then show "- maxDay \<le> u div msPerDay" and "u div msPerDay \<le> maxDay"
    by (simp_all add: m_def)
qed

lemma getWorkingDaysInWeek_parsable:
  assumes "newDate dateStr = Some t" and "\<bar>t\<bar> \<le> maxTime - 5 * msPerDay"
  shows "getWorkingDaysInWeek (fixedZone tz) dateStr holidays =
           Some (Inr (filter (\<lambda>ds. \<not> isWeekend (fixedZone tz) ds \<and> ds \<notin> set holidays)
                        (map Canon [weekStart tz t..weekStart tz t + 4])))"
proof -
  define k where "k = - (((t + tz) div msPerDay + 4) mod 7) + 1"
  have M: "0 < msPerDay" by (rule msPerDay_pos)
  have k: "- 5 \<le> k" "k \<le> 1" by (simp_all add: k_def)
  have kM: "- 5 * msPerDay \<le> k * msPerDay" "k * msPerDay \<le> 1 * msPerDay"
    using k M by (intro mult_right_mono; simp)+
  have cm: "timeClip (t + k * msPerDay) = Some (t + k * msPerDay)"
    using kM M by (intro timeClip_margin[OF assms(2)]) simp_all
  have cf: "timeClip (t + k * msPerDay + 4 * msPerDay) = Some (t + k * msPerDay + 4 * msPerDay)"
  proof -
    have "timeClip (t + (k * msPerDay + 4 * msPerDay)) = Some (t + (k * msPerDay + 4 * msPerDay))"
      using kM M by (intro timeClip_margin[OF assms(2)]) simp_all
    then show ?thesis by (simp add: add.assoc)
  qed
  have mon: "(t + k * msPerDay) div msPerDay = weekStart tz t"
    using M by (simp add: weekStart_def k_def)
  have fri: "(t + k * msPerDay + 4 * msPerDay) div msPerDay = weekStart tz t + 4"
    using M by (simp add: weekStart_def k_def)
  have "\<bar>t + k * msPerDay\<bar> \<le> maxTime"
    using cm by (simp add: timeClip_def split: if_splits)
  from day_of_time_bounds(1)[OF this] have lo: "- maxDay - 1 \<le> weekStart tz t"
    by (simp add: mon)
  have "\<bar>t + k * msPerDay + 4 * msPerDay\<bar> \<le> maxTime"
    using cf by (simp add: timeClip_def split: if_splits)
  from day_of_time_bounds(2)[OF this] have hi: "weekStart tz t + 4 \<le> maxDay"
    by (simp add: fri)
  have day: "getDay (fixedZone tz) (Some t) = Some (- k + 1)"
    by (simp add: getDay_fixed k_def)
  have "- (- k + 1) + 1 = k" by simp
  then show ?thesis
    using assms(1) cm cf mon fri
    by (simp add: getWorkingDaysInWeek_def day setDateRel_fixed toISODate_def
        getWorkingDaysInRange_Canon[OF lo hi] Let_def)
qed

lemma getWorkingDaysInWeek_unparsable:
  assumes "newDate dateStr = None"
  shows "getWorkingDaysInWeek z dateStr holidays = Some (Inl RangeError)"
  using assms
  by (simp add: getWorkingDaysInWeek_def getDay_def setDateRel_def toISODate_def Let_def)

lemma weekStart_Canon:
  assumes "0 \<le> tz" "tz < msPerDay"
  shows "weekStart tz (d * msPerDay) = d + 1 - calendarWeekday d"
  using msPerDay_pos by (simp add: weekStart_def calendarWeekday_def local_day_Canon[OF assms])

lemma day_margin:
  assumes "- maxDay + 5 \<le> d" "d + 5 \<le> maxDay"
  shows "\<bar>d * msPerDay\<bar> \<le> maxTime - 5 * msPerDay"
proof -
  have "(- maxDay + 5) * msPerDay \<le> d * msPerDay" "d * msPerDay \<le> (maxDay - 5) * msPerDay"
    using assms msPerDay_pos by (simp_all add: mult_right_mono)
  then show ?thesis by (simp add: maxTime_def abs_le_iff algebra_simps)
qed

section \<open>The validator\<close>

lemma weeklyLimitMessage_distinct:
  "weeklyLimitMessage n \<noteq> ''Date is outside internship period''"
  "weeklyLimitMessage n \<noteq> ''Cannot mark attendance on weekends''"
  "weeklyLimitMessage n \<noteq> ''Cannot mark attendance on holidays''"
  "weeklyLimitMessage n \<noteq> ''Attendance already marked for this date''"
  by (simp_all add: weeklyLimitMessage_def)

lemma isWithinInternshipPeriod_Canon:
  "isWithinInternshipPeriod (Canon d) (Canon s) (Canon e) \<longleftrightarrow> s \<le> d \<and> d \<le> e"
  using msPerDay_pos by (simp add: isWithinInternshipPeriod_def getTime_def)

text \<open>
  What the validator returns, in a zone of fixed offset, for a parsable mark date at least
  five days inside the range of \<open>Date\<close>.
\<close>

lemma validate_parsable:
  assumes "newDate dateStr = Some t" and "\<bar>t\<bar> \<le> maxTime - 5 * msPerDay"
  shows "validateAttendanceMarkable (fixedZone tz) studentId dateStr n startDate endDate
           holidays existing =
     Some (Inr \<lparr>isValid =
            (isWithinInternshipPeriod dateStr startDate endDate
             \<and> \<not> isWeekend (fixedZone tz) dateStr
             \<and> dateStr \<notin> set holidays \<and> \<not> (\<exists>a\<in>set existing. date a = dateStr)
             \<and> \<not> n \<le> int (length (filter (\<lambda>a. date a \<in> set
                  (filter (\<lambda>ds. \<not> isWeekend (fixedZone tz) ds \<and> ds \<notin> set holidays)
                     (map Canon [weekStart tz t..weekStart tz t + 4]))) existing))),
          errors =
            (if isWithinInternshipPeriod dateStr startDate endDate then []
             else [''Date is outside internship period''])
            @ (if isWeekend (fixedZone tz) dateStr then [''Cannot mark attendance on weekends'']
               else if dateStr \<in> set holidays then [''Cannot mark attendance on holidays'']
               else [])
            @ (if \<exists>a\<in>set existing. date a = dateStr
               then [''Attendance already marked for this date''] else [])
            @ (if n \<le> int (length (filter (\<lambda>a. date a \<in> set
                  (filter (\<lambda>ds. \<not> isWeekend (fixedZone tz) ds \<and> ds \<notin> set holidays)
                     (map Canon [weekStart tz t..weekStart tz t + 4]))) existing))
               then [weeklyLimitMessage n] else [])\<rparr>)"
  unfolding validateAttendanceMarkable_def getWorkingDaysInWeek_parsable[OF assms]
  by (simp add: isValidWorkingDay_def reasonOr_def Let_def list_ex_iff)

text \<open>
  The week that the code enumerates for a calendar date, in calendar terms. Unless the date
  is a Sunday, that is the specification's week.
\<close>

lemma code_week_calendar:
  assumes "0 \<le> tz" "tz < msPerDay"
  shows "filter (\<lambda>ds. \<not> isWeekend (fixedZone tz) ds \<and> ds \<notin> set holidays)
           (map Canon [weekStart tz (d * msPerDay)..weekStart tz (d * msPerDay) + 4])
         = map Canon (enumeratedWeek d holidays)"
proof -
  have fri: "d + 1 - calendarWeekday d + 4 = d + 5 - calendarWeekday d" by simp
  show ?thesis
    unfolding weekStart_Canon[OF assms] fri enumeratedWeek_def
    by (simp only: filter_map_Canon isWeekend_Canon[OF assms] workingDay_def)
qed

lemma mondayOfWeek_not_sunday:
  assumes "calendarWeekday d \<noteq> 0"
  shows "mondayOfWeek d = d + 1 - calendarWeekday d"
proof -
  have "0 \<le> calendarWeekday d" "calendarWeekday d < 7" by (simp_all add: calendarWeekday_def)
  with assms have "(calendarWeekday d + 6) mod 7 = calendarWeekday d - 1" by presburger
  then show ?thesis by (simp add: mondayOfWeek_def)
qed

lemma enumeratedWeek_spec:
  assumes "calendarWeekday d \<noteq> 0"
  shows "enumeratedWeek d holidays = workingDaysInWeek d holidays"
proof -
  have "d + 5 - calendarWeekday d = mondayOfWeek d + 4"
    by (simp add: mondayOfWeek_not_sunday[OF assms])
  then show ?thesis
    by (simp only: enumeratedWeek_def workingDaysInWeek_def
        mondayOfWeek_not_sunday[OF assms, symmetric])
qed

lemma enumeratedCount_spec:
  assumes "calendarWeekday d \<noteq> 0"
  shows "enumeratedCount d holidays existing = weekCount d holidays existing"
  by (simp only: enumeratedCount_def weekCount_def enumeratedWeek_spec[OF assms])

text \<open>
  The validator on calendar dates, in calendar terms; the count behind the quota entry
  is over the week that the code enumerates.
\<close>

lemma validate_calendar:
  assumes "0 \<le> tz" "tz < msPerDay" and "- maxDay + 5 \<le> d" "d + 5 \<le> maxDay"
  shows "validateAttendanceMarkable (fixedZone tz) studentId (Canon d) n (Canon s) (Canon e)
           holidays existing =
     Some (Inr \<lparr>isValid =
            (s \<le> d \<and> d \<le> e \<and> \<not> weekendDay d \<and> Canon d \<notin> set holidays
             \<and> \<not> (\<exists>a\<in>set existing. date a = Canon d)
             \<and> \<not> n \<le> enumeratedCount d holidays existing),
          errors =
            (if s \<le> d \<and> d \<le> e then [] else [''Date is outside internship period''])
            @ (if weekendDay d then [''Cannot mark attendance on weekends'']
               else if Canon d \<in> set holidays then [''Cannot mark attendance on holidays'']
               else [])
            @ (if \<exists>a\<in>set existing. date a = Canon d
               then [''Attendance already marked for this date''] else [])
            @ (if n \<le> enumeratedCount d holidays existing
               then [weeklyLimitMessage n] else [])\<rparr>)"
proof -
  have t: "newDate (Canon d) = Some (d * msPerDay)" by simp
  show ?thesis
    unfolding validate_parsable[OF t day_margin[OF assms(3,4)]]
      code_week_calendar[OF assms(1,2)] enumeratedCount_def
    by (simp add: isWeekend_Canon[OF assms(1,2)] isWithinInternshipPeriod_Canon)
qed

text \<open>
  Claim C1, as stated, fails where the runtime's zone lies west of UTC. Five hours behind
  UTC, the mark of the specification's happy path (Monday 2024-03-04, in range, no
  holidays, no records) passes all four checks and yet is returned invalid, as a weekend
  day: the midnight that the date string parses to is Sunday evening there.
\<close>

theorem happy_path_west_of_utc:
  "calendarWeekday (ymd 2024 3 4) = 1
   \<and> validateAttendanceMarkable (fixedZone (- 18000000)) ''S1'' (Canon (ymd 2024 3 4)) 5
        (Canon (ymd 2024 3 1)) (Canon (ymd 2024 8 31)) [] []
      = Some (Inr \<lparr>isValid = False, errors = [''Cannot mark attendance on weekends'']\<rparr>)"
  by code_simp

text \<open>
  Claim C1, amended. Where the runtime's zone keeps one offset from UTC, of at least
  nothing and less than a day, and for a mark date at least five days inside the range of
  \<open>Date\<close>: \<open>validateAttendanceMarkable\<close> returns a result whose errors are the reasons
  of the failed checks in the order range, working day, duplicate, weekly quota, a passing
  check contributing nothing. The range check is \<open>start \<le> date \<le> end\<close>; the working-day
  check gives the weekend reason on a Saturday or Sunday and otherwise the holiday reason
  on a holiday; the duplicate check fails when an existing record has the date; the quota
  check, for a date that is not a Sunday, fails when the existing records on the working
  days of the date's week number at least \<open>daysPerWeekAllowed\<close>. \<open>isValid\<close> holds
  exactly when the errors are empty, and a duplicate makes the result invalid and is named
  in it. What the quota check does on a Sunday is left open here.
\<close>

theorem validateAttendanceMarkable_checks_in_order:
  assumes "0 \<le> tz" "tz < msPerDay" and "- maxDay + 5 \<le> d" "d + 5 \<le> maxDay"
  shows "\<exists>quotaErr.
     (let rangeErr = (if s \<le> d \<and> d \<le> e then [] else [''Date is outside internship period'']);
          dayErr = (if weekendDay d then [''Cannot mark attendance on weekends'']
                    else if Canon d \<in> set holidays
                    then [''Cannot mark attendance on holidays''] else []);
          dupErr = (if \<exists>a\<in>set existing. date a = Canon d
                    then [''Attendance already marked for this date''] else []);
          errs = rangeErr @ dayErr @ dupErr @ quotaErr
      in validateAttendanceMarkable (fixedZone tz) studentId (Canon d) n (Canon s) (Canon e)
           holidays existing = Some (Inr \<lparr>isValid = (errs = []), errors = errs\<rparr>)
         \<and> (quotaErr = [] \<or> quotaErr = [weeklyLimitMessage n])
         \<and> (calendarWeekday d \<noteq> 0 \<longrightarrow>
              quotaErr = (if n \<le> weekCount d holidays existing
                          then [weeklyLimitMessage n] else []))
         \<and> ((\<exists>a\<in>set existing. date a = Canon d) \<longrightarrow>
              errs \<noteq> [] \<and> ''Attendance already marked for this date'' \<in> set errs))"
proof -
  let ?q = "if n \<le> enumeratedCount d holidays existing then [weeklyLimitMessage n] else []"
  have spec: "calendarWeekday d \<noteq> 0 \<longrightarrow>
                ?q = (if n \<le> weekCount d holidays existing then [weeklyLimitMessage n] else [])"
    by (simp add: enumeratedCount_spec)
  have two: "?q = [] \<or> ?q = [weeklyLimitMessage n]" by simp
  show ?thesis
    apply (rule exI[of _ ?q])
    unfolding Let_def validate_calendar[OF assms]
    using spec two by auto
qed

theorem validateAttendanceMarkable_checks_in_order_witness:
  "(0::int) \<le> 0 \<and> 0 < msPerDay \<and> - maxDay + 5 \<le> ymd 2024 3 9 \<and> ymd 2024 3 9 + 5 \<le> maxDay
   \<and> calendarWeekday (ymd 2024 3 9) = 6
   \<and> weekCount (ymd 2024 3 9) []
        [\<lparr>date = Canon (ymd 2024 3 4), status = Present\<rparr>,
         \<lparr>date = Canon (ymd 2024 3 5), status = Absent\<rparr>,
         \<lparr>date = Canon (ymd 2024 3 9), status = Present\<rparr>] = 2
   \<and> validateAttendanceMarkable (fixedZone 0) ''S1'' (Canon (ymd 2024 3 9)) 2
        (Canon (ymd 2024 3 11)) (Canon (ymd 2024 8 31)) []
        [\<lparr>date = Canon (ymd 2024 3 4), status = Present\<rparr>,
         \<lparr>date = Canon (ymd 2024 3 5), status = Absent\<rparr>,
         \<lparr>date = Canon (ymd 2024 3 9), status = Present\<rparr>]
      = Some (Inr \<lparr>isValid = False,
                   errors = [''Date is outside internship period'',
                             ''Cannot mark attendance on weekends'',
                             ''Attendance already marked for this date'',
                             ''Weekly attendance limit exceeded (2 days per week allowed)'']\<rparr>)
   \<and> validateAttendanceMarkable (fixedZone 0) ''S1'' (Canon (ymd 2024 3 4)) 5
        (Canon (ymd 2024 3 1)) (Canon (ymd 2024 8 31)) [] []
      = Some (Inr \<lparr>isValid = True, errors = []\<rparr>)"
proof -
  let ?ex = "[\<lparr>date = Canon 19786, status = Present\<rparr>,
              \<lparr>date = Canon 19787, status = Absent\<rparr>,
              \<lparr>date = Canon 19791, status = Present\<rparr>]"
  have z: "(0::int) \<le> 0" "0 < msPerDay" by (simp_all add: msPerDay_def)
  have m1: "- maxDay + 5 \<le> 19791" "19791 + 5 \<le> maxDay" by (simp_all add: maxDay_def)
  have m2: "- maxDay + 5 \<le> 19786" "19786 + 5 \<le> maxDay" by (simp_all add: maxDay_def)
  have sat: "calendarWeekday 19791 = 6" "weekendDay 19791"
    by (simp_all add: weekendDay_def calendarWeekday_def)
  have mon: "calendarWeekday 19786 = 1" "\<not> weekendDay 19786"
    by (simp_all add: weekendDay_def calendarWeekday_def)
  have c1: "weekCount 19791 [] ?ex = 2" by code_simp
  have c2: "weekCount 19786 [] [] = 0" by code_simp
  have msg: "weeklyLimitMessage 2 = ''Weekly attendance limit exceeded (2 days per week allowed)''"
    by code_simp
  from validateAttendanceMarkable_checks_in_order[OF z m1, where s = 19793 and e = 19966
      and holidays = "[]" and existing = ?ex and n = 2 and studentId = "''S1''"]
  have v1: "validateAttendanceMarkable (fixedZone 0) ''S1'' (Canon 19791) 2
        (Canon 19793) (Canon 19966) [] ?ex
      = Some (Inr \<lparr>isValid = False,
                   errors = [''Date is outside internship period'',
                             ''Cannot mark attendance on weekends'',
                             ''Attendance already marked for this date'',
                             ''Weekly attendance limit exceeded (2 days per week allowed)'']\<rparr>)"
    by (auto simp add: Let_def sat c1 msg)
  from validateAttendanceMarkable_checks_in_order[OF z m2, where s = 19783 and e = 19966
      and holidays = "[]" and existing = "[]" and n = 5 and studentId = "''S1''"]
  have v2: "validateAttendanceMarkable (fixedZone 0) ''S1'' (Canon 19786) 5
        (Canon 19783) (Canon 19966) [] [] = Some (Inr \<lparr>isValid = True, errors = []\<rparr>)"
    by (auto simp add: Let_def mon c2)
  show ?thesis
    unfolding ymd_examples using z m1 sat(1) c1 v1 v2 by simp
qed

text \<open>
  Claim C2 fails on a Sunday, with the defect of claim C3. 2024-03-10 is a Sunday; its
  week began on Monday 2024-03-04, and two records, of 2024-03-04 and 2024-03-05, lie on
  working days of that week, so that with a limit of 2 the count has reached the limit.
  The code counts over the following week, 2024-03-11 to 2024-03-15, finds nothing, and
  returns no weekly-limit reason.
\<close>

theorem weekly_quota_missed_on_sunday:
  "calendarWeekday (ymd 2024 3 10) = 0 \<and> mondayOfWeek (ymd 2024 3 10) = ymd 2024 3 4
   \<and> weekCount (ymd 2024 3 10) []
        [\<lparr>date = Canon (ymd 2024 3 4), status = Present\<rparr>,
         \<lparr>date = Canon (ymd 2024 3 5), status = Present\<rparr>] = 2
   \<and> validateAttendanceMarkable (fixedZone 0) ''S1'' (Canon (ymd 2024 3 10)) 2
        (Canon (ymd 2024 3 1)) (Canon (ymd 2024 8 31)) []
        [\<lparr>date = Canon (ymd 2024 3 4), status = Present\<rparr>,
         \<lparr>date = Canon (ymd 2024 3 5), status = Present\<rparr>]
      = Some (Inr \<lparr>isValid = False, errors = [''Cannot mark attendance on weekends'']\<rparr>)"
  by code_simp

text \<open>
  Claim C10. The result of \<open>validateAttendanceMarkable\<close> does not depend on the
  \<open>studentId\<close> argument: two calls that differ only there return the same value.
\<close>

theorem validateAttendanceMarkable_ignores_studentId:
  "validateAttendanceMarkable z studentId1 dateStr n startDate endDate holidays existing =
   validateAttendanceMarkable z studentId2 dateStr n startDate endDate holidays existing"
  by (simp add: validateAttendanceMarkable_def)

text \<open>
  Claim C9, as stated, fails: an unparsable \<open>internshipStartDate\<close> with a parsable mark
  date comes back through the result as the business-rule violation "Date is outside
  internship period", every comparison with \<open>NaN\<close> being false.
\<close>

theorem malformed_start_reported_as_violation:
  "newDate (Other ''not-a-date'' None) = None
   \<and> validateAttendanceMarkable (fixedZone 0) ''S1'' (Canon (ymd 2024 3 4)) 5
        (Other ''not-a-date'' None) (Canon (ymd 2024 8 31)) [] []
      = Some (Inr \<lparr>isValid = False, errors = [''Date is outside internship period'']\<rparr>)"
  by code_simp

text \<open>
  Claim C9, amended. When the mark date itself is unparsable, \<open>validateAttendanceMarkable\<close>
  returns no result at all: formatting the invalid \<open>monday\<close> throws a \<open>RangeError\<close>,
  whatever the other arguments and the zone. An unparsable \<open>internshipStartDate\<close> or
  \<open>internshipEndDate\<close> is not signalled: every result that the call returns then is
  invalid, with "Date is outside internship period" as its first error; and where the
  zone keeps one offset, the call does return a result for every parsable mark date at
  least five days inside the range of \<open>Date\<close>.
\<close>

theorem malformed_dates_throw_or_fail_range:
  "(newDate dateStr = None \<longrightarrow>
      validateAttendanceMarkable z studentId dateStr n startDate endDate holidays existing
        = Some (Inl RangeError))
   \<and> ((newDate startDate = None \<or> newDate endDate = None)
        \<and> validateAttendanceMarkable z studentId dateStr n startDate endDate holidays existing
            = Some (Inr r) \<longrightarrow>
      \<not> isValid r \<and> (\<exists>rest. errors r = ''Date is outside internship period'' # rest))
   \<and> (newDate dateStr = Some t \<and> \<bar>t\<bar> \<le> maxTime - 5 * msPerDay \<longrightarrow>
      (\<exists>r'. validateAttendanceMarkable (fixedZone tz) studentId dateStr n startDate endDate
               holidays existing = Some (Inr r')))"
proof (intro conjI impI)
  assume "newDate dateStr = None"
  then show "validateAttendanceMarkable z studentId dateStr n startDate endDate holidays existing
        = Some (Inl RangeError)"
    by (simp add: validateAttendanceMarkable_def getWorkingDaysInWeek_unparsable Let_def)
next
  assume a: "(newDate startDate = None \<or> newDate endDate = None)
        \<and> validateAttendanceMarkable z studentId dateStr n startDate endDate holidays existing
            = Some (Inr r)"
  then have out: "\<not> isWithinInternshipPeriod dateStr startDate endDate"
    by (auto simp add: isWithinInternshipPeriod_def getTime_def split: option.splits)
  from a have v: "validateAttendanceMarkable z studentId dateStr n startDate endDate holidays
                    existing = Some (Inr r)" by simp
  show "\<not> isValid r" using v out
    by (auto simp add: validateAttendanceMarkable_def Let_def
        split: option.splits sum.splits if_splits)
  show "\<exists>rest. errors r = ''Date is outside internship period'' # rest" using v out
    by (auto simp add: validateAttendanceMarkable_def Let_def
        split: option.splits sum.splits if_splits)
next
  assume "newDate dateStr = Some t \<and> \<bar>t\<bar> \<le> maxTime - 5 * msPerDay"
  then show "\<exists>r'. validateAttendanceMarkable (fixedZone tz) studentId dateStr n startDate
               endDate holidays existing = Some (Inr r')"
    by (simp add: validate_parsable)
qed

theorem malformed_dates_throw_or_fail_range_witness:
  "newDate (Other ''2024-13-45'' None) = None
   \<and> validateAttendanceMarkable (fixedZone 0) ''S1'' (Other ''2024-13-45'' None) 5
        (Canon (ymd 2024 3 1)) (Canon (ymd 2024 8 31)) [] [] = Some (Inl RangeError)
   \<and> newDate (Other ''2024-99-99'' None) = None
   \<and> \<not> isValid \<lparr>isValid = False, errors = [''Date is outside internship period'']\<rparr>
   \<and> validateAttendanceMarkable (fixedZone 0) ''S1'' (Canon (ymd 2024 3 4)) 5
        (Canon (ymd 2024 3 1)) (Other ''2024-99-99'' None) [] []
      = Some (Inr \<lparr>isValid = False, errors = [''Date is outside internship period'']\<rparr>)"
proof -
  let ?r = "\<lparr>isValid = False, errors = [''Date is outside internship period'']\<rparr>"
  have p: "newDate (Other ''2024-13-45'' None) = None" by simp
  have q: "newDate (Other ''2024-99-99'' None) = None" by simp
  have v: "validateAttendanceMarkable (fixedZone 0) ''S1'' (Canon (ymd 2024 3 4)) 5
        (Canon (ymd 2024 3 1)) (Other ''2024-99-99'' None) [] [] = Some (Inr ?r)"
    by code_simp
  from malformed_dates_throw_or_fail_range[where dateStr = "Other ''2024-13-45'' None"
      and z = "fixedZone 0" and studentId = "''S1''" and n = 5
      and startDate = "Canon (ymd 2024 3 1)" and endDate = "Canon (ymd 2024 8 31)"
      and holidays = "[]" and existing = "[]"] p
  have a: "validateAttendanceMarkable (fixedZone 0) ''S1'' (Other ''2024-13-45'' None) 5
        (Canon (ymd 2024 3 1)) (Canon (ymd 2024 8 31)) [] [] = Some (Inl RangeError)"
    by simp
  from malformed_dates_throw_or_fail_range[where dateStr = "Canon (ymd 2024 3 4)"
      and z = "fixedZone 0" and studentId = "''S1''" and n = 5
      and startDate = "Canon (ymd 2024 3 1)" and endDate = "Other ''2024-99-99'' None"
      and holidays = "[]" and existing = "[]" and r = ?r] q v
  have b: "\<not> isValid ?r" by simp
  show ?thesis using p q a b v by simp
qed

text \<open>
  Claim C4, as stated, fails where the runtime's zone lies west of UTC. Five hours behind
  UTC, the specification's holiday collision (Monday 2024-03-04 a holiday, the mark
  otherwise valid) is returned with the weekend reason, not the holiday reason.
\<close>

theorem holiday_collision_west_of_utc:
  "\<not> weekendDay (ymd 2024 3 4)
   \<and> validateAttendanceMarkable (fixedZone (- 18000000)) ''S1'' (Canon (ymd 2024 3 4)) 5
        (Canon (ymd 2024 3 1)) (Canon (ymd 2024 8 31)) [Canon (ymd 2024 3 4)] []
      = Some (Inr \<lparr>isValid = False, errors = [''Cannot mark attendance on weekends'']\<rparr>)"
  by code_simp

text \<open>
  Claim C4, amended. Where the runtime's zone keeps one offset from UTC, of at least
  nothing and less than a day, and for a date at least five days inside the range of
  \<open>Date\<close>: the working-day check gives the weekend reason when the date is a Saturday or
  Sunday, whether or not it is also a holiday; otherwise the holiday reason when the date
  is in the holiday set; otherwise none. So at most one of the two reasons is among the
  errors of a validation, and a holiday on a weekday whose mark is otherwise valid (in
  range, no duplicate, fewer records on the working days of its week than the limit)
  yields exactly \<open>["Cannot mark attendance on holidays"]\<close>.
\<close>

theorem working_day_reason_exclusive:
  assumes "0 \<le> tz" "tz < msPerDay" and "- maxDay + 5 \<le> d" "d + 5 \<le> maxDay"
  shows "reason (isValidWorkingDay (fixedZone tz) (Canon d) holidays)
           = (if weekendDay d then Some ''Cannot mark attendance on weekends''
              else if Canon d \<in> set holidays then Some ''Cannot mark attendance on holidays''
              else None)
         \<and> isValid (isValidWorkingDay (fixedZone tz) (Canon d) holidays) = workingDay d holidays
         \<and> (\<exists>r. validateAttendanceMarkable (fixedZone tz) studentId (Canon d) n (Canon s)
                   (Canon e) holidays existing = Some (Inr r)
                 \<and> (''Cannot mark attendance on weekends'' \<in> set (errors r)) = weekendDay d
                 \<and> (''Cannot mark attendance on holidays'' \<in> set (errors r))
                     = (\<not> weekendDay d \<and> Canon d \<in> set holidays)
                 \<and> (\<not> weekendDay d \<and> Canon d \<in> set holidays \<and> s \<le> d \<and> d \<le> e
                      \<and> \<not> (\<exists>a\<in>set existing. date a = Canon d)
                      \<and> weekCount d holidays existing < n
                     \<longrightarrow> r = \<lparr>isValid = False,
                               errors = [''Cannot mark attendance on holidays'']\<rparr>))"
proof -
  have c: "\<not> weekendDay d \<Longrightarrow> enumeratedCount d holidays existing = weekCount d holidays existing"
    by (simp add: enumeratedCount_spec weekendDay_def)
  show ?thesis
    unfolding validate_calendar[OF assms]
    using c
    by (auto simp add: isValidWorkingDay_def isWeekend_Canon[OF assms(1,2)] workingDay_def
        weeklyLimitMessage_distinct weeklyLimitMessage_distinct[symmetric])
qed

theorem working_day_reason_exclusive_witness:
  "(0::int) \<le> 0 \<and> 0 < msPerDay \<and> - maxDay + 5 \<le> ymd 2024 3 4 \<and> ymd 2024 3 4 + 5 \<le> maxDay
   \<and> \<not> weekendDay (ymd 2024 3 4)
   \<and> Canon (ymd 2024 3 4) \<in> set [Canon (ymd 2024 3 4)]
   \<and> ymd 2024 3 1 \<le> ymd 2024 3 4 \<and> ymd 2024 3 4 \<le> ymd 2024 8 31
   \<and> weekCount (ymd 2024 3 4) [Canon (ymd 2024 3 4)] [] < 5
   \<and> validateAttendanceMarkable (fixedZone 0) ''S1'' (Canon (ymd 2024 3 4)) 5
        (Canon (ymd 2024 3 1)) (Canon (ymd 2024 8 31)) [Canon (ymd 2024 3 4)] []
      = Some (Inr \<lparr>isValid = False, errors = [''Cannot mark attendance on holidays'']\<rparr>)"
proof -
  have z: "(0::int) \<le> 0" "0 < msPerDay" by (simp_all add: msPerDay_def)
  have m: "- maxDay + 5 \<le> 19786" "19786 + 5 \<le> maxDay" by (simp_all add: maxDay_def)
  have mon: "\<not> weekendDay 19786" by (simp add: weekendDay_def calendarWeekday_def)
  have c: "weekCount 19786 [Canon 19786] [] < 5" by code_simp
  from working_day_reason_exclusive[OF z m, where s = 19783 and e = 19966
      and holidays = "[Canon 19786]" and existing = "[]" and n = 5 and studentId = "''S1''"]
  have v: "validateAttendanceMarkable (fixedZone 0) ''S1'' (Canon 19786) 5
        (Canon 19783) (Canon 19966) [Canon 19786] []
      = Some (Inr \<lparr>isValid = False, errors = [''Cannot mark attendance on holidays'']\<rparr>)"
    using mon c by auto
  show ?thesis unfolding ymd_examples using z m mon c v by simp
qed

section \<open>Working days in a range\<close>

lemma sorted_wrt_upto_filter: "sorted_wrt (<) (filter P [s..e])"
proof -
  have "sorted_wrt (<) [s..e]" by (rule sorted_wrt_upto)
  then show ?thesis by (rule sorted_wrt_filter)
qed

text \<open>
  Claim C5, as stated, fails in two ways. Five hours behind UTC, the range from Monday
  2024-03-04 to Sunday 2024-03-10 is returned as Tuesday to Saturday: it contains the
  Saturday 2024-03-09 (and misses the Monday). In a zone that moves its clocks forward by
  an hour at local midnight of 2024-04-26 (from two to three hours ahead of UTC, as Cairo
  did), the range from 2024-04-24 to 2024-04-29 lists 2024-04-25 twice, so it is not
  strictly ascending, and it stops before Monday 2024-04-29.
\<close>

theorem range_lists_saturday_and_repeats_day:
  "calendarWeekday (ymd 2024 3 9) = 6
   \<and> getWorkingDaysInRange (fixedZone (- 18000000)) (Canon (ymd 2024 3 4))
        (Canon (ymd 2024 3 10)) []
      = Some (Inr [Canon (ymd 2024 3 5), Canon (ymd 2024 3 6), Canon (ymd 2024 3 7),
                   Canon (ymd 2024 3 8), Canon (ymd 2024 3 9)])
   \<and> getWorkingDaysInRange
        (springForward (ymd 2024 4 25 * msPerDay + 22 * 3600000) 7200000 10800000)
        (Canon (ymd 2024 4 24)) (Canon (ymd 2024 4 29)) []
      = Some (Inr [Canon (ymd 2024 4 24), Canon (ymd 2024 4 25), Canon (ymd 2024 4 25),
                   Canon (ymd 2024 4 26)])"
  by code_simp

text \<open>
  Claim C5, amended. Where the runtime's zone keeps one offset from UTC, of at least
  nothing and less than a day, and for calendar dates \<open>start\<close> and \<open>end\<close> within the range
  of \<open>Date\<close>: \<open>getWorkingDaysInRange\<close> returns, without an error, the date strings of the
  days from \<open>start\<close> to \<open>end\<close> that are neither a Saturday nor a Sunday nor in the holiday
  list. That sequence is strictly ascending, each of its days lies within \<open>[start, end]\<close>,
  none is a Saturday or a Sunday, none is in the holiday list, and it is empty when
  \<open>start > end\<close>.
\<close>

theorem getWorkingDaysInRange_ascending_within:
  assumes "0 \<le> tz" "tz < msPerDay" and "- maxDay \<le> s" "e \<le> maxDay"
  shows "\<exists>days. getWorkingDaysInRange (fixedZone tz) (Canon s) (Canon e) holidays
                   = Some (Inr (map Canon days))
           \<and> days = filter (\<lambda>d. workingDay d holidays) [s..e]
           \<and> sorted_wrt (<) days
           \<and> (\<forall>d\<in>set days. s \<le> d \<and> d \<le> e \<and> calendarWeekday d \<noteq> 0 \<and> calendarWeekday d \<noteq> 6
                  \<and> Canon d \<notin> set holidays)
           \<and> (e < s \<longrightarrow> days = [])"
proof -
  let ?days = "filter (\<lambda>d. workingDay d holidays) [s..e]"
  have lo: "- maxDay - 1 \<le> s" using assms(3) by simp
  have "getWorkingDaysInRange (fixedZone tz) (Canon s) (Canon e) holidays
          = Some (Inr (map Canon ?days))"
    unfolding getWorkingDaysInRange_Canon[OF lo assms(4)]
    by (simp only: filter_map_Canon isWeekend_Canon[OF assms(1,2)] workingDay_def)
  moreover have "sorted_wrt (<) ?days" by (rule sorted_wrt_upto_filter)
  moreover have "\<forall>d\<in>set ?days. s \<le> d \<and> d \<le> e \<and> calendarWeekday d \<noteq> 0 \<and> calendarWeekday d \<noteq> 6
                  \<and> Canon d \<notin> set holidays"
    by (simp add: workingDay_def weekendDay_def)
  moreover have "e < s \<longrightarrow> ?days = []" by simp
  ultimately show ?thesis by blast
qed

theorem getWorkingDaysInRange_ascending_within_witness:
  "(0::int) \<le> 0 \<and> 0 < msPerDay \<and> - maxDay \<le> ymd 2024 3 1 \<and> ymd 2024 3 10 \<le> maxDay
   \<and> getWorkingDaysInRange (fixedZone 0) (Canon (ymd 2024 3 1)) (Canon (ymd 2024 3 10))
        [Canon (ymd 2024 3 4)]
      = Some (Inr (map Canon
          [ymd 2024 3 1, ymd 2024 3 5, ymd 2024 3 6, ymd 2024 3 7, ymd 2024 3 8]))
   \<and> sorted_wrt (<) [ymd 2024 3 1, ymd 2024 3 5, ymd 2024 3 6, ymd 2024 3 7, ymd 2024 3 8]
   \<and> - maxDay \<le> ymd 2024 3 10 \<and> ymd 2024 3 1 \<le> maxDay
   \<and> ymd 2024 3 1 < ymd 2024 3 10
   \<and> getWorkingDaysInRange (fixedZone 0) (Canon (ymd 2024 3 10)) (Canon (ymd 2024 3 1))
        [Canon (ymd 2024 3 4)] = Some (Inr [])"
proof -
  have z: "(0::int) \<le> 0" "0 < msPerDay" by (simp_all add: msPerDay_def)
  have m: "- maxDay \<le> 19783" "19792 \<le> maxDay" "- maxDay \<le> 19792" "19783 \<le> maxDay"
    by (simp_all add: maxDay_def)
  have f: "filter (\<lambda>d. workingDay d [Canon 19786]) [19783..19792]
           = [19783, 19787, 19788, 19789, 19790]" by code_simp
  from getWorkingDaysInRange_ascending_within[OF z m(1,2), where holidays = "[Canon 19786]"]
  have v: "getWorkingDaysInRange (fixedZone 0) (Canon 19783) (Canon 19792) [Canon 19786]
            = Some (Inr (map Canon [19783, 19787, 19788, 19789, 19790]))"
    and srt: "sorted_wrt (<) [19783, 19787, 19788, 19789, 19790 :: int]"
    unfolding f by auto
  from getWorkingDaysInRange_ascending_within[OF z m(3,4), where holidays = "[Canon 19786]"]
  have v2: "getWorkingDaysInRange (fixedZone 0) (Canon 19792) (Canon 19783) [Canon 19786]
            = Some (Inr [])"
    by auto
  show ?thesis unfolding ymd_examples using z m v srt v2 by simp
qed

section \<open>The week of a date\<close>

text \<open>
  The span that \<open>getWorkingDaysInWeek\<close> enumerates, for a calendar date with weekday
  \<open>w\<close>: the days \<open>d + 1 - w\<close> to \<open>d + 5 - w\<close>, which is the Monday to Friday of the
  Sunday-to-Saturday week of \<open>d\<close>.
\<close>

lemma getWorkingDaysInWeek_span:
  assumes "0 \<le> tz" "tz < msPerDay" and "- maxDay + 5 \<le> d" "d + 5 \<le> maxDay"
  shows "getWorkingDaysInWeek (fixedZone tz) (Canon d) holidays =
           Some (Inr (map Canon (enumeratedWeek d holidays)))"
proof -
  have t: "newDate (Canon d) = Some (d * msPerDay)" by simp
  show ?thesis
    unfolding getWorkingDaysInWeek_parsable[OF t day_margin[OF assms(3,4)]]
    by (simp only: code_week_calendar[OF assms(1,2)])
qed

text \<open>
  Claim C3 fails on a Sunday. 2024-03-10 is a Sunday; the Monday-anchored week that
  contains it runs from 2024-03-04, and its Monday-to-Friday span ends on 2024-03-08.
  \<open>getWorkingDaysInWeek\<close> (zone UTC, no holidays) returns the five days from the
  following Monday, 2024-03-11 to 2024-03-15: with \<open>dayOfWeek = 0\<close>,
  \<open>monday\<close> is \<open>date + 1\<close>.
\<close>

theorem getWorkingDaysInWeek_sunday_next_week:
  "calendarWeekday (ymd 2024 3 10) = 0
   \<and> getWorkingDaysInWeek (fixedZone 0) (Canon (ymd 2024 3 10)) []
     = Some (Inr [Canon (ymd 2024 3 11), Canon (ymd 2024 3 12), Canon (ymd 2024 3 13),
                  Canon (ymd 2024 3 14), Canon (ymd 2024 3 15)])"
proof -
  have z: "(0::int) \<le> 0" "0 < msPerDay" by (simp_all add: msPerDay_def)
  have m: "- maxDay + 5 \<le> 19792" "19792 + 5 \<le> maxDay" by (simp_all add: maxDay_def)
  have sunday: "calendarWeekday 19792 = 0" by (simp add: calendarWeekday_def)
  have days: "enumeratedWeek 19792 [] = [19793, 19794, 19795, 19796, 19797]"
    by code_simp
  have week: "getWorkingDaysInWeek (fixedZone 0) (Canon 19792) []
              = Some (Inr [Canon 19793, Canon 19794, Canon 19795, Canon 19796, Canon 19797])"
    by (simp only: getWorkingDaysInWeek_span[OF z m] days list.map)
  show ?thesis unfolding ymd_examples by (intro conjI sunday week)
qed
section \<open>Counting attendance\<close>

lemma countLoop_tally:
  "countLoop startTime endTime records (p, a) =
     (p + length (filter (\<lambda>r. timeInRange (getTime (newDate (date r))) startTime endTime
                              \<and> status r = Present) records),
      a + length (filter (\<lambda>r. timeInRange (getTime (newDate (date r))) startTime endTime
                              \<and> status r \<noteq> Present) records))"
  by (induction records arbitrary: p a) (simp_all add: Let_def)

lemma timeInRange_fallsWithin:
  "timeInRange (getTime (newDate ds)) (getTime (Some (s * msPerDay)))
       (getTime (Some (e * msPerDay))) = fallsWithin s e ds"
proof (cases ds)
  case (Canon d)
  then show ?thesis using msPerDay_pos by (simp add: timeInRange_def getTime_def)
next
  case (Other str r)
  then show ?thesis by (cases r) (simp_all add: timeInRange_def getTime_def)
qed

lemma not_Present: "(st \<noteq> Present) = (st = Absent)"
  by (cases st) simp_all

text \<open>
  Claim C7. Over the calendar days \<open>s\<close> to \<open>e\<close>, \<open>countAttendance\<close> returns as
  \<open>present\<close> the number of records whose date falls within \<open>[s, e]\<close> and whose
  status is Present, as \<open>absent\<close> the number of those whose status is Absent, and as
  \<open>total\<close> their sum; and for any two bounds whatever, \<open>total = present + absent\<close>.
\<close>

theorem countAttendance_tallies_range:
  "countAttendance records (Canon s) (Canon e) =
     \<lparr>present = length (filter (\<lambda>r. fallsWithin s e (date r) \<and> status r = Present) records),
      absent = length (filter (\<lambda>r. fallsWithin s e (date r) \<and> status r = Absent) records),
      total = length (filter (\<lambda>r. fallsWithin s e (date r) \<and> status r = Present) records)
              + length (filter (\<lambda>r. fallsWithin s e (date r) \<and> status r = Absent) records)\<rparr>
   \<and> total (countAttendance records startDate endDate)
       = present (countAttendance records startDate endDate)
         + absent (countAttendance records startDate endDate)"
  by (simp add: countAttendance_def countLoop_tally timeInRange_fallsWithin not_Present Let_def)

theorem countAttendance_tallies_range_witness:
  "countAttendance [\<lparr>date = Canon (ymd 2024 3 4), status = Present\<rparr>,
                    \<lparr>date = Canon (ymd 2024 3 5), status = Absent\<rparr>,
                    \<lparr>date = Canon (ymd 2024 3 12), status = Present\<rparr>,
                    \<lparr>date = Other ''garbage'' None, status = Present\<rparr>]
      (Canon (ymd 2024 3 4)) (Canon (ymd 2024 3 8))
   = \<lparr>present = 1, absent = 1, total = 2\<rparr>"
  using countAttendance_tallies_range[where s = "ymd 2024 3 4" and e = "ymd 2024 3 8"
      and records = "[\<lparr>date = Canon (ymd 2024 3 4), status = Present\<rparr>,
                      \<lparr>date = Canon (ymd 2024 3 5), status = Absent\<rparr>,
                      \<lparr>date = Canon (ymd 2024 3 12), status = Present\<rparr>,
                      \<lparr>date = Other ''garbage'' None, status = Present\<rparr>]"]
  by (simp add: ymd_examples)

section \<open>Custom working days\<close>

lemma dayNameAt_Canon:
  assumes "0 \<le> tz" "tz < msPerDay"
  shows "dayNameAt (getDay (fixedZone tz) (Some (d * msPerDay))) = Some (weekdayName d)"
proof -
  have "0 \<le> calendarWeekday d" "calendarWeekday d < 7"
    by (simp_all add: calendarWeekday_def)
  then show ?thesis
    by (simp add: getDay_Canon[OF assms] dayNameAt_def weekdayName_def)
qed

text \<open>
  Claim C8, as stated, fails where the runtime's zone lies west of UTC. Five hours behind
  UTC, with the custom set Monday and Saturday, the Saturday 2024-03-09 (in the period, no
  holiday) is rejected: the weekday is read in local time, where the parsed date is still
  Friday.
\<close>

theorem listed_saturday_rejected_west_of_utc:
  "weekdayName (ymd 2024 3 9) = ''Saturday''
   \<and> isValidWorkingDayConfig (fixedZone (- 18000000)) (DateString (Canon (ymd 2024 3 9)))
        \<lparr>daysPerWeek = 2, customDays = Some [''Monday'', ''Saturday''],
         internshipStartDate = Canon (ymd 2024 3 1),
         internshipEndDate = Canon (ymd 2024 8 31)\<rparr> []
      = Inr \<lparr>isValid = False,
             reason = Some ''Friday is not a working day. Working days: Monday, Saturday''\<rparr>"
  by code_simp

text \<open>
  Claim C8, amended. Where the runtime's zone keeps one offset from UTC, of at least
  nothing and less than a day: for a calendar date that passes the internship-period test
  and is not a holiday, under a configuration with a non-empty \<open>customDays\<close> list,
  \<open>isValidWorkingDay\<close> returns a result that is valid exactly when the name of the date's
  weekday is in the list; Saturday and Sunday get no special treatment.
\<close>

theorem custom_days_decide_working_day:
  assumes "0 \<le> tz" "tz < msPerDay"
    and "customDays config = Some days" "days \<noteq> []"
    and "\<not> strLess (Canon d) (internshipStartDate config)"
    and "\<not> strLess (internshipEndDate config) (Canon d)"
    and "Canon d \<notin> set holidays"
  shows "\<exists>r. isValidWorkingDayConfig (fixedZone tz) (DateString (Canon d)) config holidays
               = Inr r
             \<and> isValid r = (weekdayName d \<in> set days)"
proof -
  obtain c cs where days: "days = c # cs" using assms(4) by (cases days) auto
  have iso: "toISODate (Some (d * msPerDay)) = Inr (Canon d)"
    using msPerDay_pos by (simp add: toISODate_def)
  show ?thesis
    using assms(3,5,6,7)
    by (simp add: isValidWorkingDayConfig_def iso Let_def days
        dayNameAt_Canon[OF assms(1,2)])
qed

theorem custom_days_decide_working_day_witness:
  "(0::int) \<le> 0 \<and> 0 < msPerDay
   \<and> \<not> strLess (Canon (ymd 2024 3 9)) (Canon (ymd 2024 3 1))
   \<and> \<not> strLess (Canon (ymd 2024 8 31)) (Canon (ymd 2024 3 9))
   \<and> isoText (ymd 2024 3 9) = ''2024-03-09''
   \<and> weekdayName (ymd 2024 3 9) = ''Saturday''
   \<and> isValidWorkingDayConfig (fixedZone 0) (DateString (Canon (ymd 2024 3 9)))
        \<lparr>daysPerWeek = 2, customDays = Some [''Monday'', ''Saturday''],
         internshipStartDate = Canon (ymd 2024 3 1),
         internshipEndDate = Canon (ymd 2024 8 31)\<rparr> []
      = Inr \<lparr>isValid = True, reason = None\<rparr>
   \<and> weekdayName (ymd 2024 3 5) = ''Tuesday''
   \<and> isValidWorkingDayConfig (fixedZone 0) (DateString (Canon (ymd 2024 3 5)))
        \<lparr>daysPerWeek = 2, customDays = Some [''Monday'', ''Saturday''],
         internshipStartDate = Canon (ymd 2024 3 1),
         internshipEndDate = Canon (ymd 2024 8 31)\<rparr> []
      = Inr \<lparr>isValid = False,
             reason = Some ''Tuesday is not a working day. Working days: Monday, Saturday''\<rparr>"
proof -
  let ?config = "\<lparr>daysPerWeek = 2, customDays = Some [''Monday'', ''Saturday''],
         internshipStartDate = Canon (ymd 2024 3 1),
         internshipEndDate = Canon (ymd 2024 8 31)\<rparr>"
  have z: "(0::int) \<le> 0" "0 < msPerDay" by (simp_all add: msPerDay_def)
  have c: "customDays ?config = Some [''Monday'', ''Saturday'']"
    "[''Monday'', ''Saturday''] \<noteq> []" by simp_all
  have lo: "\<not> strLess (Canon (ymd 2024 3 9)) (internshipStartDate ?config)" by code_simp
  have hi: "\<not> strLess (internshipEndDate ?config) (Canon (ymd 2024 3 9))" by code_simp
  have h: "Canon (ymd 2024 3 9) \<notin> set []" by simp
  have txt9: "isoText (ymd 2024 3 9) = ''2024-03-09''" by code_simp
  have sat: "weekdayName (ymd 2024 3 9) = ''Saturday''" by code_simp
  have tue: "weekdayName (ymd 2024 3 5) = ''Tuesday''" by code_simp
  have v1: "isValidWorkingDayConfig (fixedZone 0) (DateString (Canon (ymd 2024 3 9))) ?config []
      = Inr \<lparr>isValid = True, reason = None\<rparr>" by code_simp
  have v2: "isValidWorkingDayConfig (fixedZone 0) (DateString (Canon (ymd 2024 3 5))) ?config []
      = Inr \<lparr>isValid = False,
             reason = Some ''Tuesday is not a working day. Working days: Monday, Saturday''\<rparr>"
    by code_simp
  from custom_days_decide_working_day[OF z c lo hi h]
  have "isValid \<lparr>isValid = True, reason = None\<rparr> = (''Saturday'' \<in> set [''Monday'', ''Saturday''])"
    by (simp add: v1 sat)
  with z lo hi txt9 sat tue v1 v2 show ?thesis by simp
qed
section \<open>Rounding to a double\<close>

lemma roundHalfEven_le:
  assumes "q \<le> of_int n"
  shows "roundHalfEven q \<le> n"
proof -
  have f: "\<lfloor>q\<rfloor> \<le> n" using assms by (simp add: floor_le_iff)
  show ?thesis
  proof (cases "\<lfloor>q\<rfloor> = n")
    case True
    then have "q = of_int n" using assms by (metis floor_le_iff  le_floor_iff order_antisym of_int_floor_le)
    then show ?thesis by (simp add: roundHalfEven_def)
  next
    case False
    with f have "\<lfloor>q\<rfloor> + 1 \<le> n" by simp
    then show ?thesis by (simp add: roundHalfEven_def Let_def)
  qed
qed

lemma roundHalfEven_ge:
  assumes "of_int n \<le> q"
  shows "n \<le> roundHalfEven q"
proof -
  have "n \<le> \<lfloor>q\<rfloor>" using assms by (simp add: le_floor_iff)
  then show ?thesis by (simp add: roundHalfEven_def Let_def)
qed

lemma roundHalfEven_near:
  "\<bar>of_int (roundHalfEven q) - q\<bar> \<le> 1 / 2"
proof -
  have "of_int \<lfloor>q\<rfloor> \<le> q" "q < of_int \<lfloor>q\<rfloor> + 1" by linarith+
  then show ?thesis by (auto simp add: roundHalfEven_def Let_def)
qed

lemma floorLog2_bounds:
  assumes "0 < x"
  shows "power_int 2 (floorLog2 x) \<le> x" and "x < power_int 2 (floorLog2 x + 1)"
proof -
  obtain a b where q: "quotient_of x = (a, b)" by (cases "quotient_of x")
  then have b: "0 < b" and x: "x = of_int a / of_int b"
    using quotient_of_denom_pos quotient_of_div by auto
  with assms have a: "0 < a" by (simp add: zero_less_divide_iff)
  let ?la = "bitlen a" and ?lb = "bitlen b"
  from bitlen_bounds[OF a] have a1: "2 ^ nat (?la - 1) \<le> a" and a2: "a < 2 ^ nat ?la" by auto
  from bitlen_bounds[OF b] have b1: "2 ^ nat (?lb - 1) \<le> b" and b2: "b < 2 ^ nat ?lb" by auto
  have la: "1 \<le> ?la" using a by (simp add: bitlen_alt_def)
  have lb: "1 \<le> ?lb" using b by (simp add: bitlen_alt_def)
  have ra1: "(power_int 2 (?la - 1) :: rat) \<le> of_int a"
  proof -
    have "(of_int (2 ^ nat (?la - 1)) :: rat) \<le> of_int a" using a1 by (simp only: of_int_le_iff)
    then show ?thesis using la by (simp add: power_int_nonneg_exp)
  qed
  have ra2: "(of_int a :: rat) < power_int 2 ?la"
  proof -
    have "(of_int a :: rat) < of_int (2 ^ nat ?la)" using a2 by (simp only: of_int_less_iff)
    then show ?thesis using la by (simp add: power_int_nonneg_exp)
  qed
  have rb1: "(power_int 2 (?lb - 1) :: rat) \<le> of_int b"
  proof -
    have "(of_int (2 ^ nat (?lb - 1)) :: rat) \<le> of_int b" using b1 by (simp only: of_int_le_iff)
    then show ?thesis using lb by (simp add: power_int_nonneg_exp)
  qed
  have rb2: "(of_int b :: rat) < power_int 2 ?lb"
  proof -
    have "(of_int b :: rat) < of_int (2 ^ nat ?lb)" using b2 by (simp only: of_int_less_iff)
    then show ?thesis using lb by (simp add: power_int_nonneg_exp)
  qed
  have bpos: "(0::rat) < of_int b" using b by simp
  have up: "x < power_int 2 (?la - ?lb + 1)"
  proof -
    have "(power_int 2 ?la :: rat) = power_int 2 (?la - ?lb + 1) * power_int 2 (?lb - 1)"
      by (simp add: power_int_add[symmetric])
    also have "\<dots> \<le> power_int 2 (?la - ?lb + 1) * of_int b"
      by (rule mult_left_mono[OF rb1]) simp
    finally have "(of_int a :: rat) < power_int 2 (?la - ?lb + 1) * of_int b"
      using ra2 by simp
    then show ?thesis using bpos by (simp add: x pos_divide_less_eq)
  qed
  have lo: "power_int 2 (?la - ?lb - 1) < x"
  proof -
    have "(power_int 2 (?la - ?lb - 1) :: rat) * of_int b
            < power_int 2 (?la - ?lb - 1) * power_int 2 ?lb"
      by (rule mult_strict_left_mono[OF rb2]) simp
    also have "\<dots> = power_int 2 (?la - 1)"
      by (simp add: power_int_add[symmetric])
    finally have "(power_int 2 (?la - ?lb - 1) :: rat) * of_int b < of_int a"
      using ra1 by simp
    then show ?thesis using bpos by (simp add: x pos_less_divide_eq)
  qed
  show "power_int 2 (floorLog2 x) \<le> x"
    using lo by (simp add: floorLog2_def q Let_def)
  show "x < power_int 2 (floorLog2 x + 1)"
    using up by (simp add: floorLog2_def q Let_def)
qed

lemma roundToDouble_pos:
  assumes "0 < x"
  shows "roundToDouble x =
           of_int (roundHalfEven (x / power_int 2 (floorLog2 x - 52)))
             * power_int 2 (floorLog2 x - 52)"
  using assms by (simp add: roundToDouble_def Let_def)

lemma ulp_le:
  assumes "0 < x"
  shows "(power_int 2 (floorLog2 x - 52) :: rat) \<le> x / 2 ^ 52"
proof -
  have "(power_int 2 (floorLog2 x - 52) :: rat) = power_int 2 (floorLog2 x) / 2 ^ 52"
    by (simp add: power_int_diff)
  also have "\<dots> \<le> x / 2 ^ 52"
    using floorLog2_bounds(1)[OF assms] by (simp add: divide_right_mono)
  finally show ?thesis .
qed

lemma roundToDouble_error:
  assumes "0 < x"
  shows "\<bar>roundToDouble x - x\<bar> \<le> x / 2 ^ 53"
proof -
  let ?u = "power_int 2 (floorLog2 x - 52) :: rat"
  let ?m = "roundHalfEven (x / ?u)"
  have u: "0 < ?u" by simp
  have "roundToDouble x - x = (of_int ?m - x / ?u) * ?u"
    using u by (simp add: roundToDouble_pos[OF assms] algebra_simps)
  then have "\<bar>roundToDouble x - x\<bar> = \<bar>of_int ?m - x / ?u\<bar> * ?u"
    using u by (simp add: abs_mult)
  also have "\<dots> \<le> (1 / 2) * ?u"
    using roundHalfEven_near[of "x / ?u"] u by (intro mult_right_mono) simp_all
  also have "\<dots> \<le> (1 / 2) * (x / 2 ^ 52)"
    using ulp_le[OF assms] by (intro mult_left_mono) simp_all
  also have "\<dots> = x / 2 ^ 53" by simp
  finally show ?thesis .
qed

lemma roundToDouble_nonneg:
  assumes "0 \<le> x"
  shows "0 \<le> roundToDouble x"
proof (cases "x = 0")
  case True
  then show ?thesis by (simp add: roundToDouble_def)
next
  case False
  with assms have x: "0 < x" by simp
  let ?u = "power_int 2 (floorLog2 x - 52) :: rat"
  have "0 \<le> x / ?u" using x by simp
  then have "0 \<le> roundHalfEven (x / ?u)" using roundHalfEven_ge[of 0 "x / ?u"] by simp
  then show ?thesis by (simp add: roundToDouble_pos[OF x])
qed

lemma roundToDouble_le_int:
  assumes "0 \<le> x" "x \<le> of_int n" "n < 2 ^ 53"
  shows "roundToDouble x \<le> of_int n"
proof (cases "x = 0")
  case True
  with assms show ?thesis by (simp add: roundToDouble_def)
next
  case False
  with assms have x: "0 < x" by simp
  let ?e = "floorLog2 x"
  let ?u = "power_int 2 (?e - 52) :: rat"
  have "(power_int 2 ?e :: rat) \<le> x" by (rule floorLog2_bounds(1)[OF x])
  also have "x \<le> of_int n" by fact
  also have "(of_int n :: rat) < of_int (2 ^ 53)" using assms(3) by (simp only: of_int_less_iff)
  finally have lt: "(power_int 2 ?e :: rat) < power_int 2 53" by simp
  have e: "?e < 53" using power_int_le_imp_less_exp[of "2::rat" ?e 53] lt by simp
  then have inv: "1 / ?u = of_int (2 ^ nat (52 - ?e))"
    by (simp add: power_int_diff power_int_nonneg_exp[symmetric] field_simps)
  have u: "0 < ?u" by simp
  have "x / ?u \<le> of_int n / ?u" using assms(2) u by (simp add: divide_right_mono)
  also have "\<dots> = of_int (n * 2 ^ nat (52 - ?e))"
    using inv by (simp add: field_simps)
  finally have "roundHalfEven (x / ?u) \<le> n * 2 ^ nat (52 - ?e)"
    by (rule roundHalfEven_le)
  then have "(of_int (roundHalfEven (x / ?u)) :: rat) \<le> of_int (n * 2 ^ nat (52 - ?e))"
    by (simp only: of_int_le_iff)
  then have "of_int (roundHalfEven (x / ?u)) * ?u \<le> of_int (n * 2 ^ nat (52 - ?e)) * ?u"
    using u by (simp add: mult_right_mono)
  also have "of_int (n * 2 ^ nat (52 - ?e)) * ?u = of_int n * ((1 / ?u) * ?u)"
    by (simp add: inv)
  also have "\<dots> = of_int n" using u by simp
  finally show ?thesis by (simp add: roundToDouble_pos[OF x])
qed

lemma percentage_nonneg: "0 \<le> calculateAttendancePercentage p t"
proof (cases "t = 0")
  case True
  then show ?thesis by (simp add: calculateAttendancePercentage_def)
next
  case False
  have "0 \<le> numDiv (of_nat p) (of_nat t)"
    unfolding numDiv_def by (rule roundToDouble_nonneg) simp
  then have "0 \<le> numMul (numDiv (of_nat p) (of_nat t)) 100"
    unfolding numMul_def by (intro roundToDouble_nonneg) simp
  then have "0 \<le> mathRound (numMul (numDiv (of_nat p) (of_nat t)) 100)"
    by (simp add: mathRound_def)
  with False show ?thesis by (simp add: calculateAttendancePercentage_def)
qed

lemma percentage_le_100:
  assumes "p \<le> t"
  shows "calculateAttendancePercentage p t \<le> 100"
proof (cases "t = 0")
  case True
  then show ?thesis by (simp add: calculateAttendancePercentage_def)
next
  case False
  let ?a = "of_nat p / of_nat t :: rat"
  have a: "0 \<le> ?a" "?a \<le> of_int 1" using assms False by (simp_all add: divide_le_eq)
  have "roundToDouble ?a \<le> of_int 1"
    by (rule roundToDouble_le_int) (use a in simp_all)
  moreover have "0 \<le> roundToDouble ?a"
    by (rule roundToDouble_nonneg) (use a in simp_all)
  ultimately have x1: "0 \<le> numDiv (of_nat p) (of_nat t)" "numDiv (of_nat p) (of_nat t) \<le> 1"
    by (simp_all add: numDiv_def)
  let ?y = "numDiv (of_nat p) (of_nat t) * 100"
  have y: "0 \<le> ?y" "?y \<le> of_int 100" using x1 by simp_all
  have "numMul (numDiv (of_nat p) (of_nat t)) 100 \<le> of_int 100"
    unfolding numMul_def by (rule roundToDouble_le_int) (use y in simp_all)
  then have "mathRound (numMul (numDiv (of_nat p) (of_nat t)) 100) \<le> 100"
    unfolding mathRound_def by (simp add: floor_le_iff)
  with False show ?thesis by (simp add: calculateAttendancePercentage_def)
qed

lemma two_roundings:
  fixes a x1 x2 :: rat
  assumes "\<bar>x1 - a\<bar> \<le> a / 2 ^ 53" "\<bar>x2 - x1 * 100\<bar> \<le> x1 * 100 / 2 ^ 53"
    and "0 < a" "a \<le> 1"
  shows "\<bar>x2 - 100 * a\<bar> < 1 / 2 ^ 45"
  using assms unfolding abs_le_iff abs_less_iff by simp

lemma product_close:
  assumes "0 < p" "p \<le> t"
  shows "\<bar>numMul (numDiv (of_nat p) (of_nat t)) 100 - 100 * of_nat p / of_nat t\<bar>
           < 1 / 2 ^ 45"
proof -
  let ?a = "of_nat p / of_nat t :: rat"
  let ?x1 = "numDiv (of_nat p) (of_nat t)"
  let ?y = "?x1 * 100"
  let ?x2 = "numMul ?x1 100"
  have t: "0 < t" using assms by simp
  have a: "0 < ?a" "?a \<le> 1" using assms t by (simp_all add: divide_le_eq)
  have e1: "\<bar>?x1 - ?a\<bar> \<le> ?a / 2 ^ 53"
    unfolding numDiv_def by (rule roundToDouble_error[OF a(1)])
  then have ypos: "0 < ?y" using a(1) by (simp add: abs_le_iff) 
  have e2: "\<bar>?x2 - ?y\<bar> \<le> ?y / 2 ^ 53"
    unfolding numMul_def by (rule roundToDouble_error[OF ypos])
  have "\<bar>?x2 - 100 * ?a\<bar> < 1 / 2 ^ 45"
    by (rule two_roundings[OF e1 e2 a])
  then show ?thesis by simp
qed

lemma floor_half: "\<lfloor>1 / 2 :: rat\<rfloor> = 0"
  by (rule floor_unique) simp_all

lemma squeeze:
  fixes w x v r d e :: rat
  assumes "r + d \<le> v + 1 / 2" "v + 1 / 2 \<le> r + 1 - d" "e \<le> d" "\<bar>x - v\<bar> < e"
  shows "r \<le> x + 1 / 2" and "x + 1 / 2 < r + 1"
  using assms unfolding abs_less_iff by linarith+

lemma squeeze_tie:
  fixes x v r e :: rat
  assumes "v + 1 / 2 = r" "\<bar>x - v\<bar> < e" "e \<le> 1"
  shows "r - 1 \<le> x + 1 / 2" and "x + 1 / 2 < r + 1"
  using assms unfolding abs_less_iff by linarith+

lemma halfway_iff:
  "halfway p t \<longleftrightarrow>
     100 * (of_nat p :: rat) / of_nat t + 1 / 2 = of_int (exactPercentage p t)"
proof -
  let ?v = "100 * (of_nat p :: rat) / of_nat t"
  show ?thesis
  proof
    assume "halfway p t"
    then have "?v = of_int \<lfloor>?v\<rfloor> + 1 / 2" unfolding halfway_def frac_def by linarith
    then have w: "?v + 1 / 2 = of_int (\<lfloor>?v\<rfloor> + 1)" by simp
    then have "\<lfloor>?v + 1 / 2\<rfloor> = \<lfloor>?v\<rfloor> + 1" by (simp only: floor_of_int)
    with w show "?v + 1 / 2 = of_int (exactPercentage p t)"
      by (simp add: exactPercentage_def)
  next
    assume a: "?v + 1 / 2 = of_int (exactPercentage p t)"
    then have v: "?v = of_int (exactPercentage p t - 1) + 1 / 2" by simp
    have "\<lfloor>?v\<rfloor> = exactPercentage p t - 1"
      by (subst v, rule floor_unique) simp_all
    then show "halfway p t" using v by (simp add: halfway_def frac_def)
  qed
qed

lemma grid:
  fixes w :: rat and R N D :: int
  assumes D: "0 < D" and wD: "w * of_int D = of_int N"
    and R: "of_int R < w" "w < of_int R + 1"
  shows "of_int R + 1 / of_int D \<le> w" and "w \<le> of_int R + 1 - 1 / of_int D"
proof -
  have Dr: "(0::rat) < of_int D" using D by simp
  have "(of_int R :: rat) * of_int D < w * of_int D"
    using R(1) Dr by (simp add: mult_strict_right_mono)
  then have "(of_int (R * D) :: rat) < of_int N" by (simp add: wD)
  then have "R * D < N" by (simp only: of_int_less_iff)
  then have "R * D + 1 \<le> N" by simp
  then have "(of_int (R * D + 1) :: rat) \<le> of_int N" by (simp only: of_int_le_iff)
  then have "of_int R * of_int D + 1 \<le> w * of_int D" by (simp add: wD)
  then show "of_int R + 1 / of_int D \<le> w"
    using Dr by (simp add: field_simps)
  have "w * of_int D < (of_int R + 1) * of_int D"
    using R(2) Dr by (simp add: mult_strict_right_mono)
  then have "(of_int N :: rat) < of_int ((R + 1) * D)" by (simp add: wD)
  then have "N < (R + 1) * D" by (simp only: of_int_less_iff)
  then have "N + 1 \<le> (R + 1) * D" by simp
  then have "(of_int (N + 1) :: rat) \<le> of_int ((R + 1) * D)" by (simp only: of_int_le_iff)
  then have "w * of_int D + 1 \<le> (of_int R + 1) * of_int D" by (simp add: wD)
  then show "w \<le> of_int R + 1 - 1 / of_int D"
    using Dr by (simp add: field_simps)
qed

lemma percentage_zero_present:
  "calculateAttendancePercentage 0 t = 0" "exactPercentage 0 t = 0" "\<not> halfway 0 t"
  by (simp_all add: calculateAttendancePercentage_def numDiv_def numMul_def roundToDouble_def
      mathRound_def exactPercentage_def halfway_def floor_half)

lemma percentage_exact:
  assumes "0 < t" "t \<le> 2 ^ 44" "p \<le> t"
  shows "\<not> halfway p t \<Longrightarrow> calculateAttendancePercentage p t = exactPercentage p t"
    and "halfway p t \<Longrightarrow> calculateAttendancePercentage p t = exactPercentage p t
                        \<or> calculateAttendancePercentage p t = exactPercentage p t - 1"
proof -
  let ?v = "100 * (of_nat p :: rat) / of_nat t"
  let ?w = "?v + 1 / 2"
  let ?R = "exactPercentage p t"
  let ?x2 = "numMul (numDiv (of_nat p) (of_nat t)) 100"
  let ?D = "2 * int t"
  have calc: "calculateAttendancePercentage p t = \<lfloor>?x2 + 1 / 2\<rfloor>"
    using assms(1) by (simp add: calculateAttendancePercentage_def mathRound_def)
  have D: "0 < ?D" using assms(1) by simp
  have "(of_nat t :: rat) \<le> of_nat (2 ^ 44)" using assms(2) by (simp only: of_nat_le_iff)
  then have "(of_int ?D :: rat) \<le> 2 ^ 45" by simp
  then have step: "1 / 2 ^ 45 \<le> 1 / (of_int ?D :: rat)"
    using D by (simp add: field_simps)
  have floor: "of_int ?R \<le> ?w" "?w < of_int ?R + 1"
    unfolding exactPercentage_def by linarith+
  have wD: "?w * of_int ?D = of_int (200 * int p + int t)"
    using assms(1) by (simp add: field_simps)
  {
    assume nh: "\<not> halfway p t"
    show "calculateAttendancePercentage p t = ?R"
    proof (cases "p = 0")
      case True
      then show ?thesis by (simp add: percentage_zero_present)
    next
      case False
      then have p: "0 < p" by simp
      have close: "\<bar>?x2 - ?v\<bar> < 1 / 2 ^ 45" by (rule product_close[OF p assms(3)])
      from nh floor(1) have lt: "of_int ?R < ?w" by (simp add: halfway_iff)
      note g = grid[OF D wD lt floor(2)]
      have "of_int ?R \<le> ?x2 + 1 / 2" "?x2 + 1 / 2 < of_int ?R + 1"
        by (rule squeeze[OF g step close])+
      then have "\<lfloor>?x2 + 1 / 2\<rfloor> = ?R" by (intro floor_unique)
      then show ?thesis by (simp add: calc)
    qed
  }
  {
    assume h: "halfway p t"
    then have p: "0 < p" using percentage_zero_present(3)[of t] by (cases "p = 0") auto
    have close: "\<bar>?x2 - ?v\<bar> < 1 / 2 ^ 45" by (rule product_close[OF p assms(3)])
    from h have w: "?w = of_int ?R" by (simp add: halfway_iff)
    have small: "(1 / 2 ^ 45 :: rat) \<le> 1" by simp
    have lo: "of_int ?R - 1 \<le> ?x2 + 1 / 2" and hi: "?x2 + 1 / 2 < of_int ?R + 1"
      by (rule squeeze_tie[OF w close small])+
    have "\<lfloor>?x2 + 1 / 2\<rfloor> = ?R \<or> \<lfloor>?x2 + 1 / 2\<rfloor> = ?R - 1"
    proof (cases "of_int ?R \<le> ?x2 + 1 / 2")
      case True
      then have "\<lfloor>?x2 + 1 / 2\<rfloor> = ?R" using hi by (intro floor_unique)
      then show ?thesis ..
    next
      case False
      then have "?x2 + 1 / 2 < of_int (?R - 1) + 1" by simp
      moreover have "of_int (?R - 1) \<le> ?x2 + 1 / 2" using lo by simp
      ultimately have "\<lfloor>?x2 + 1 / 2\<rfloor> = ?R - 1" by (intro floor_unique)
      then show ?thesis ..
    qed
    then show "calculateAttendancePercentage p t = ?R
               \<or> calculateAttendancePercentage p t = ?R - 1"
      by (simp add: calc)
  }
qed

text \<open>
  Claim C6, as stated, fails twice. With more present days than working days the result
  leaves \<open>0..100\<close>: 3 of 2 gives 150. And the result is not always the rounded exact
  quotient: 23 of 40 is 57.5 exactly, which rounds to 58, but the double nearest to
  \<open>23/40\<close> times 100 is the double just below 57.5, and \<open>Math.round\<close> gives 57.
\<close>

theorem percentage_out_of_range_and_off_by_one:
  "calculateAttendancePercentage 3 2 = 150
   \<and> calculateAttendancePercentage 23 40 = 57 \<and> exactPercentage 23 40 = 58"
  by code_simp

text \<open>
  Claim C6, amended. \<open>calculateAttendancePercentage\<close> is 0 when \<open>totalWorkingDays\<close>
  is 0, and never negative. When \<open>presentDays \<le> totalWorkingDays\<close> it is at most 100,
  and (for \<open>totalWorkingDays \<le> 2^44\<close>) it equals \<open>100 * presentDays / totalWorkingDays\<close>
  rounded to the nearest integer, unless that quotient lies exactly half-way between two
  integers: there the result is one of the two, the lower or the upper.
\<close>

theorem calculateAttendancePercentage_amended:
  "calculateAttendancePercentage p 0 = 0
   \<and> 0 \<le> calculateAttendancePercentage p t
   \<and> (p \<le> t \<longrightarrow> calculateAttendancePercentage p t \<le> 100)
   \<and> (0 < t \<and> t \<le> 2 ^ 44 \<and> p \<le> t \<and> \<not> halfway p t \<longrightarrow>
        calculateAttendancePercentage p t = exactPercentage p t)
   \<and> (0 < t \<and> t \<le> 2 ^ 44 \<and> p \<le> t \<and> halfway p t \<longrightarrow>
        calculateAttendancePercentage p t = exactPercentage p t
        \<or> calculateAttendancePercentage p t = exactPercentage p t - 1)"
  using percentage_nonneg[of p t] percentage_le_100[of p t]
    percentage_exact(1)[of t p] percentage_exact(2)[of t p]
  by (simp add: calculateAttendancePercentage_def)

theorem calculateAttendancePercentage_amended_witness:
  "calculateAttendancePercentage 0 0 = 0
   \<and> (2::nat) \<le> 3 \<and> (0::nat) < 3 \<and> (3::nat) \<le> 2 ^ 44 \<and> \<not> halfway 2 3
   \<and> calculateAttendancePercentage 2 3 = 67 \<and> exactPercentage 2 3 = 67
   \<and> (23::nat) \<le> 40 \<and> (0::nat) < 40 \<and> (40::nat) \<le> 2 ^ 44 \<and> halfway 23 40
   \<and> calculateAttendancePercentage 23 40 = exactPercentage 23 40 - 1"
proof -
  have nh: "\<not> halfway 2 3" by code_simp
  have h: "halfway 23 40" by code_simp
  have e1: "exactPercentage 2 3 = 67" by code_simp
  have e2: "exactPercentage 23 40 = 58" by code_simp
  have c2: "calculateAttendancePercentage 23 40 = 57" by code_simp
  have b: "(3::nat) \<le> 2 ^ 44" "(40::nat) \<le> 2 ^ 44" by simp_all
  from calculateAttendancePercentage_amended[of 2 3] nh b
  have c1: "calculateAttendancePercentage 2 3 = 67" by (simp add: e1)
  from calculateAttendancePercentage_amended[of 0 0]
  have c0: "calculateAttendancePercentage 0 0 = 0" by simp
  show ?thesis using c0 c1 c2 e1 e2 nh h b by simp
qed

end
